theory Spec2Isabelle
  imports Complex_Main
begin

section \<open>JavaScript numbers\<close>

text \<open>
  Token counts, prices, costs and reservoirs are JavaScript numbers. A finite value is a
  rational, with the special values that the code can produce: \<open>NaN\<close> (arithmetic on an
  \<open>undefined\<close> setting, \<open>0 / 0\<close>) and the two infinities (\<open>x / 0\<close>). The operations below
  give the exact result; \<open>dbl\<close> (section \<open>Binary rounding\<close>) rounds a result to the
  nearest binary64 value, and is applied where the code rounds a quotient to a whole
  percentage, the place where the binary rounding changes the integer that comes out.
\<close>

datatype jsnum = Num rat | NaN | PosInf | NegInf

definition infOfSign :: "rat \<Rightarrow> jsnum" where
  "infOfSign a = (if a = 0 then NaN else if 0 < a then PosInf else NegInf)"

fun jsAdd :: "jsnum \<Rightarrow> jsnum \<Rightarrow> jsnum" where
  "jsAdd (Num a) (Num b) = Num (a + b)"
| "jsAdd NaN _ = NaN"
| "jsAdd _ NaN = NaN"
| "jsAdd PosInf NegInf = NaN"
| "jsAdd NegInf PosInf = NaN"
| "jsAdd PosInf _ = PosInf"
| "jsAdd _ PosInf = PosInf"
| "jsAdd NegInf _ = NegInf"
| "jsAdd _ NegInf = NegInf"

fun jsNeg :: "jsnum \<Rightarrow> jsnum" where
  "jsNeg (Num a) = Num (- a)"
| "jsNeg NaN = NaN"
| "jsNeg PosInf = NegInf"
| "jsNeg NegInf = PosInf"

definition jsSub :: "jsnum \<Rightarrow> jsnum \<Rightarrow> jsnum" where
  "jsSub x y = jsAdd x (jsNeg y)"

fun jsMul :: "jsnum \<Rightarrow> jsnum \<Rightarrow> jsnum" where
  "jsMul (Num a) (Num b) = Num (a * b)"
| "jsMul NaN _ = NaN"
| "jsMul _ NaN = NaN"
| "jsMul (Num a) PosInf = infOfSign a"
| "jsMul (Num a) NegInf = infOfSign (- a)"
| "jsMul PosInf (Num b) = infOfSign b"
| "jsMul NegInf (Num b) = infOfSign (- b)"
| "jsMul PosInf PosInf = PosInf"
| "jsMul PosInf NegInf = NegInf"
| "jsMul NegInf PosInf = NegInf"
| "jsMul NegInf NegInf = PosInf"

fun jsDiv :: "jsnum \<Rightarrow> jsnum \<Rightarrow> jsnum" where
  "jsDiv (Num a) (Num b) = (if b = 0 then infOfSign a else Num (a / b))"
| "jsDiv NaN _ = NaN"
| "jsDiv _ NaN = NaN"
| "jsDiv (Num a) PosInf = Num 0"
| "jsDiv (Num a) NegInf = Num 0"
| "jsDiv PosInf (Num b) = (if 0 \<le> b then PosInf else NegInf)"
| "jsDiv NegInf (Num b) = (if 0 \<le> b then NegInf else PosInf)"
| "jsDiv PosInf PosInf = NaN"
| "jsDiv PosInf NegInf = NaN"
| "jsDiv NegInf PosInf = NaN"
| "jsDiv NegInf NegInf = NaN"

text \<open>\<^verbatim>\<open>Math.round\<close>: the nearest integer, a half rounded up.\<close>

fun jsRound :: "jsnum \<Rightarrow> jsnum" where
  "jsRound (Num a) = Num (of_int \<lfloor>a + 1 / 2\<rfloor>)"
| "jsRound NaN = NaN"
| "jsRound PosInf = PosInf"
| "jsRound NegInf = NegInf"

fun jsLt :: "jsnum \<Rightarrow> jsnum \<Rightarrow> bool" where
  "jsLt (Num a) (Num b) = (a < b)"
| "jsLt NaN _ = False"
| "jsLt _ NaN = False"
| "jsLt NegInf NegInf = False"
| "jsLt NegInf _ = True"
| "jsLt _ NegInf = False"
| "jsLt PosInf _ = False"
| "jsLt _ PosInf = True"

definition jsLe :: "jsnum \<Rightarrow> jsnum \<Rightarrow> bool" where
  "jsLe x y = (jsLt x y \<or> (x = y \<and> x \<noteq> NaN))"

text \<open>A number is falsy when it is \<open>0\<close> or \<open>NaN\<close>; \<^verbatim>\<open>x || 0\<close> replaces a falsy or
  absent \<open>x\<close> by \<open>0\<close>.\<close>

definition falsyNum :: "jsnum \<Rightarrow> bool" where
  "falsyNum x = (x = Num 0 \<or> x = NaN)"

definition orZero :: "jsnum option \<Rightarrow> jsnum" where
  "orZero x = (case x of None \<Rightarrow> Num 0 | Some n \<Rightarrow> if falsyNum n then Num 0 else n)"

text \<open>An \<open>undefined\<close> setting used in arithmetic is \<open>NaN\<close>.\<close>

definition toNumber :: "rat option \<Rightarrow> jsnum" where
  "toNumber x = (case x of None \<Rightarrow> NaN | Some a \<Rightarrow> Num a)"

definition natNum :: "nat \<Rightarrow> jsnum" where
  "natNum n = Num (of_nat n)"

section \<open>Binary rounding\<close>

text \<open>
  A JavaScript number is an IEEE 754 binary64 value: a result of \<open>/\<close> or \<open>*\<close> is the exact
  result rounded to the nearest value with 53 significant bits (exponents \<open>-1022\<close> to
  \<open>1023\<close>, subnormal values below), a tie going to the value whose last bit is even, and
  a result that rounds beyond the largest finite value being infinite.
\<close>

text \<open>The number of binary digits of a positive integer.\<close>

function bitLength :: "int \<Rightarrow> int" where
  "bitLength n = (if n \<le> 0 then 0 else 1 + bitLength (n div 2))"
  by pat_completeness auto

termination bitLength
  by (relation "measure nat") auto

declare bitLength.simps [simp del]

definition pow2 :: "int \<Rightarrow> rat" where
  "pow2 e = (if 0 \<le> e then 2 ^ nat e else 1 / 2 ^ nat (- e))"

text \<open>The exponent \<open>e\<close> of a positive rational \<open>a\<close>: \<open>2 ^ e \<le> a < 2 ^ (e + 1)\<close>.\<close>

definition exponentOf :: "rat \<Rightarrow> int" where
  "exponentOf a =
     (let (p, q) = quotient_of a;
          d = bitLength p - bitLength q
      in if pow2 d \<le> a then d else d - 1)"

definition roundHalfEven :: "rat \<Rightarrow> int" where
  "roundHalfEven x =
     (let f = \<lfloor>x\<rfloor>; r = x - of_int f
      in if r < 1 / 2 then f else if 1 / 2 < r then f + 1 else if even f then f else f + 1)"

definition toDouble :: "rat \<Rightarrow> jsnum" where
  "toDouble x =
     (if x = 0 then Num 0
      else
        (let a = \<bar>x\<bar>;
             e = max (exponentOf a) (- 1022);
             ulp = pow2 (e - 52);
             m = roundHalfEven (a / ulp)
         in if 1023 < e \<or> (e = 1023 \<and> 2 ^ 53 \<le> m)
            then (if 0 < x then PosInf else NegInf)
            else Num (if 0 < x then of_int m * ulp else - (of_int m * ulp))))"

fun dbl :: "jsnum \<Rightarrow> jsnum" where
  "dbl (Num a) = toDouble a"
| "dbl NaN = NaN"
| "dbl PosInf = PosInf"
| "dbl NegInf = NegInf"

section \<open>Values, errors\<close>

datatype json =
    JNull
  | JBool bool
  | JNumber rat
  | JString string
  | JArray "json list"
  | JObject "(string \<times> json) list"

text \<open>Truthiness of a parsed response, as \<^verbatim>\<open>data?.response || response\<close> tests it.\<close>

fun truthy :: "json \<Rightarrow> bool" where
  "truthy JNull = False"
| "truthy (JBool b) = b"
| "truthy (JNumber n) = (n \<noteq> 0)"
| "truthy (JString s) = (s \<noteq> [])"
| "truthy (JArray xs) = True"
| "truthy (JObject kvs) = True"

datatype error =
    TokenCountExceedsMaxTokens
  | Thrown string

section \<open>Model\<close>

text \<open>
  Class \<open>Model\<close>: the constructor copies the settings it is given; a setting that is
  absent is \<open>undefined\<close> (\<open>None\<close>).
\<close>

record model =
  modelName :: string
  maxTokens :: "rat option"
  tokenTxPrice :: "rat option"
  tokensRxPrice :: "rat option"

definition calculateCost :: "model \<Rightarrow> jsnum \<Rightarrow> jsnum \<Rightarrow> jsnum" where
  "calculateCost m tokensSent tokensReceived =
     jsAdd (jsMul tokensSent (toNumber (tokenTxPrice m)))
           (jsMul (toNumber (tokensRxPrice m)) tokensReceived)"

section \<open>RateLimiter\<close>

text \<open>
  Modelled from the spec: a reservoir of the admission controller. The two reservoirs are
  Bottleneck limiters, a library outside the repository; the spec gives each a count
  and a refill amount to which the count is reset at the start of each window of sixty
  seconds.
\<close>

record bottleneck =
  reservoir :: jsnum
  reservoirRefreshAmount :: jsnum

text \<open>Modelled from the spec: Bottleneck's \<open>incrementReservoir\<close> adds its argument to
  the count of the reservoir.\<close>

definition incrementReservoir :: "bottleneck \<Rightarrow> jsnum \<Rightarrow> bottleneck" where
  "incrementReservoir b incr = b\<lparr>reservoir := jsAdd (reservoir b) incr\<rparr>"

record rateLimiter =
  requestLimiter :: bottleneck
  tokenLimiter :: bottleneck

text \<open>
  Modelled from the spec: the start of a window, at which each of the two reservoirs is
  reset to its refill amount. The two limiters are made together with the same window,
  so that their windows start together.
\<close>

definition refill :: "rateLimiter \<Rightarrow> rateLimiter" where
  "refill l =
     \<lparr>requestLimiter =
        (requestLimiter l)\<lparr>reservoir := reservoirRefreshAmount (requestLimiter l)\<rparr>,
      tokenLimiter =
        (tokenLimiter l)\<lparr>reservoir := reservoirRefreshAmount (tokenLimiter l)\<rparr>\<rparr>"

datatype reservoirName = Requests | Tokens

fun reservoirOf :: "reservoirName \<Rightarrow> rateLimiter \<Rightarrow> jsnum" where
  "reservoirOf Requests l = reservoir (requestLimiter l)"
| "reservoirOf Tokens l = reservoir (tokenLimiter l)"

text \<open>Modelled from the spec: a job that starts takes its weight, \<open>1\<close>, from the
  reservoir of the limiter that scheduled it.\<close>

fun takeOne :: "reservoirName \<Rightarrow> rateLimiter \<Rightarrow> rateLimiter" where
  "takeOne Requests l =
     l\<lparr>requestLimiter :=
         (requestLimiter l)\<lparr>reservoir := jsSub (reservoir (requestLimiter l)) (Num 1)\<rparr>\<rparr>"
| "takeOne Tokens l =
     l\<lparr>tokenLimiter :=
         (tokenLimiter l)\<lparr>reservoir := jsSub (reservoir (tokenLimiter l)) (Num 1)\<rparr>\<rparr>"

text \<open>
  Modelled from the spec: Bottleneck's \<open>schedule\<close> on one of the two limiters, as far as
  the reservoirs go, Bottleneck's code being outside the repository. A job that finds at
  least \<open>1\<close> in the reservoir starts at once. A job that finds less waits for the start of
  the next window, which resets both reservoirs, and starts then if the reservoir holds
  at least \<open>1\<close>; if it does not, no later window gives more and the job is suspended for
  ever (\<open>None\<close>): the controller has no timeout and no error of its own. Time passes only
  while a job waits.
\<close>

definition schedule :: "reservoirName \<Rightarrow> rateLimiter \<Rightarrow> rateLimiter option" where
  "schedule k l =
     (if jsLe (Num 1) (reservoirOf k l) then Some (takeOne k l)
      else if jsLe (Num 1) (reservoirOf k (refill l)) then Some (takeOne k (refill l))
      else None)"

text \<open>The two admissions of \<open>RateLimiter.process\<close>: the request limiter schedules the job
  that the token limiter schedules.\<close>

definition admit :: "rateLimiter \<Rightarrow> rateLimiter option" where
  "admit l = (case schedule Requests l of None \<Rightarrow> None | Some l1 \<Rightarrow> schedule Tokens l1)"

text \<open>
  The state the calls act on: the rate limiter shared by every \<open>Model\<close> of one model
  name, and a record of what was done to the outside world: how many times the completion
  chain and the fixing parser were invoked, how many attempts the retry loop started,
  the delays slept, the errors the retry loop caught, the errors written to the console,
  and the arguments of every call of the progress callback.
\<close>

record 'p world =
  limiter :: rateLimiter
  chainCalls :: nat
  fixCalls :: nat
  attempts :: nat
  delays :: "nat list"
  caught :: "error list"
  consoleLog :: "error list"
  progressCalls :: "'p list"

text \<open>A limiter whose reservoirs are refilled with at least \<open>1\<close> never suspends a
  job for ever.\<close>

definition hasCapacity :: "rateLimiter \<Rightarrow> bool" where
  "hasCapacity l = (jsLe (Num 1) (reservoirRefreshAmount (requestLimiter l))
                    \<and> jsLe (Num 1) (reservoirRefreshAmount (tokenLimiter l)))"

text \<open>A limiter admits a job when both reservoirs have capacity for it, at once or at
  the window the job waits for.\<close>

definition admits :: "rateLimiter \<Rightarrow> bool" where
  "admits l = (admit l \<noteq> None)"

text \<open>Two worlds with the same record of attempts, delays, caught and logged errors and
  progress calls.\<close>

definition sameTrace :: "'p world \<Rightarrow> 'p world \<Rightarrow> bool" where
  "sameTrace w w' = (attempts w' = attempts w \<and> delays w' = delays w \<and> caught w' = caught w
                      \<and> consoleLog w' = consoleLog w \<and> progressCalls w' = progressCalls w)"

text \<open>
  \<open>reportTokens\<close> is \<^verbatim>\<open>(count) => { tokensUsed = count; }\<close>: of the arguments of a
  call it keeps the first. A task hands back the calls it made of it, in order, each as
  its first argument and the list of the others.
\<close>

type_synonym report = "jsnum \<times> jsnum list"

definition reportTokens :: "jsnum \<Rightarrow> report \<Rightarrow> jsnum" where
  "reportTokens tokensUsed r = fst r"

definition tokensUsedOf :: "report list \<Rightarrow> jsnum" where
  "tokensUsedOf reports = foldl reportTokens (Num 0) reports"

text \<open>
  \<open>RateLimiter.process\<close>: the request limiter schedules the token limiter, which schedules
  the task; when the task has returned, the token reservoir is incremented by
  \<open>-tokensUsed\<close>. A task that throws skips the increment.
\<close>

definition process ::
  "('p world \<Rightarrow> (('e + 'r) \<times> report list \<times> 'p world) option) \<Rightarrow> 'p world \<Rightarrow> (('e + 'r) \<times> 'p world) option" where
  "process func w =
     (case schedule Requests (limiter w) of
        None \<Rightarrow> None
      | Some l1 \<Rightarrow>
          (case schedule Tokens l1 of
             None \<Rightarrow> None
           | Some l2 \<Rightarrow>
               (case func (w\<lparr>limiter := l2\<rparr>) of
                  None \<Rightarrow> None
                | Some (Inl err, reports, w') \<Rightarrow> Some (Inl err, w')
                | Some (Inr response, reports, w') \<Rightarrow>
                    Some (Inr response,
                          w'\<lparr>limiter := (limiter w')\<lparr>tokenLimiter :=
                               incrementReservoir (tokenLimiter (limiter w'))
                                 (jsNeg (tokensUsedOf reports))\<rparr>\<rparr>))))"

section \<open>External capabilities\<close>

text \<open>
  What a call is given: \<open>dryrun\<close> and \<open>responseTokenLength\<close> are the two entries of the
  input data that \<open>Prompt.call\<close> reads itself; \<open>vars\<close> stands for the others, which only
  the templates read. \<open>Prompt.call\<close> extends the data by \<open>remainingTokenCount\<close> and
  \<open>tokenCount\<close> before it renders the messages to be sent; both are absent from the data
  of the first measurement.
\<close>

record 'd inputData =
  dryrun :: bool
  responseTokenLength :: "nat option"
  vars :: 'd

record 'd promptData =
  inputData :: "'d inputData"
  remainingTokenCount :: "jsnum option"
  tokenCount :: "nat option"

text \<open>
  The collaborators outside the repository: \<open>formatPrompt\<close> renders the message
  templates on the data and joins the messages; \<open>textTokens\<close> is the tokenizer of the
  model; \<open>chainCall k\<close> is the outcome of the \<open>k\<close>-th invocation of the completion chain
  (the generated text, or the error it throws); \<open>parserParse\<close> validates a text against
  the schema; \<open>fixingParse k\<close> is the outcome of the \<open>k\<close>-th invocation of the fixing
  parser; \<open>stringify\<close> is \<^verbatim>\<open>JSON.stringify\<close>. Rendering, the tokenizer and
  \<open>stringify\<close> are taken to return: of the collaborators, only the chain and the two
  parsers throw.
\<close>

record 'd env =
  formatPrompt :: "'d promptData \<Rightarrow> string"
  textTokens :: "string \<Rightarrow> nat"
  chainCall :: "nat \<Rightarrow> 'd promptData \<Rightarrow> error + string"
  parserParse :: "string \<Rightarrow> error + json"
  fixingParse :: "nat \<Rightarrow> string \<Rightarrow> error + json"
  stringify :: "json \<Rightarrow> string"

text \<open>\<open>Prompt.countTokens\<close>: the token count of the formatted prompt.\<close>

definition countTokens :: "'d env \<Rightarrow> 'd promptData \<Rightarrow> nat" where
  "countTokens env promptData = textTokens env (formatPrompt env promptData)"

section \<open>JSONParser\<close>

text \<open>
  The parser's own model is \<^verbatim>\<open>new Model({ modelName, temperature: 0 })\<close>: it has the
  name of the prompt's model, hence its rate limiter, and no other setting.
\<close>

definition parserModel :: "string \<Rightarrow> model" where
  "parserModel name =
     \<lparr>modelName = name, maxTokens = None, tokenTxPrice = None, tokensRxPrice = None\<rparr>"

record parseResult =
  data :: json
  fixTokensSent :: "jsnum option"
  fixTokensReceived :: "jsnum option"
  fixCost :: "jsnum option"
  parserFixed :: bool

text \<open>The task that \<open>JSONParser.parse\<close> hands to the rate limiter on a failed parse.\<close>

definition fixTask ::
  "'d env \<Rightarrow> model \<Rightarrow> string \<Rightarrow> jsnum \<Rightarrow> 'p world \<Rightarrow> ((error + parseResult) \<times> report list \<times> 'p world) option" where
  "fixTask env pm text promptTokens w =
     (let w1 = w\<lparr>fixCalls := Suc (fixCalls w)\<rparr> in
      case fixingParse env (fixCalls w) text of
        Inl err \<Rightarrow> Some (Inl err, [], w1)
      | Inr d \<Rightarrow>
          (let tokensSent = jsRound (jsMul promptTokens (Num (11 / 10)));
               tokensReceived = natNum (textTokens env (stringify env d));
               cost = calculateCost pm tokensSent tokensReceived
           in Some (Inr \<lparr>data = d, fixTokensSent = Some tokensSent,
                          fixTokensReceived = Some tokensReceived, fixCost = Some cost,
                          parserFixed = False\<rparr>,
                    [(tokensSent, [tokensReceived])], w1)))"

definition parse ::
  "'d env \<Rightarrow> model \<Rightarrow> string \<Rightarrow> jsnum \<Rightarrow> 'p world \<Rightarrow> ((error + parseResult) \<times> 'p world) option" where
  "parse env pm text promptTokens w =
     (case parserParse env text of
        Inr d \<Rightarrow>
          Some (Inr \<lparr>data = d, fixTokensSent = None, fixTokensReceived = None,
                     fixCost = None, parserFixed = False\<rparr>, w)
      | Inl e \<Rightarrow>
          (case process (fixTask env pm text promptTokens) w of
             None \<Rightarrow> None
           | Some (Inl err, w') \<Rightarrow> Some (Inl err, w')
           | Some (Inr res, w') \<Rightarrow> Some (Inr (res\<lparr>parserFixed := True\<rparr>), w')))"

section \<open>Prompt\<close>

record callResult =
  response :: "json option"
  tokensSent :: jsnum
  tokensReceived :: jsnum
  cost :: jsnum

text \<open>The three counters of \<open>Prompt.call\<close>: \<open>tokensSent\<close>, \<open>tokensReceived\<close>, \<open>cost\<close>.
  The task of every attempt adds to the same three variables.\<close>

type_synonym counters = "jsnum \<times> jsnum \<times> jsnum"

definition callTask ::
  "'d env \<Rightarrow> model \<Rightarrow> 'd promptData \<Rightarrow> counters \<Rightarrow> 'p world
     \<Rightarrow> (((error \<times> counters) + callResult) \<times> report list \<times> 'p world) option" where
  "callTask env m promptData acc w =
     (case acc of (tokensSent0, tokensReceived0, cost0) \<Rightarrow>
      (let w1 = w\<lparr>chainCalls := Suc (chainCalls w)\<rparr> in
       case chainCall env (chainCalls w) promptData of
         Inl err \<Rightarrow> Some (Inl (err, acc), [], w1)
       | Inr rawText \<Rightarrow>
           (let tokensSent1 = jsAdd tokensSent0 (natNum (countTokens env promptData));
                tokensReceived1 = jsAdd tokensReceived0 (natNum (textTokens env rawText));
                cost1 = jsAdd cost0 (calculateCost m tokensSent1 tokensReceived1);
                reports = [(jsAdd tokensSent1 tokensReceived1, [])]
            in case parse env (parserModel (modelName m)) rawText tokensSent1 w1 of
                 None \<Rightarrow> None
               | Some (Inl err, w2) \<Rightarrow>
                   Some (Inl (err, (tokensSent1, tokensReceived1, cost1)), reports, w2)
               | Some (Inr parsedResponse, w2) \<Rightarrow>
                   Some (Inr \<lparr>response = Some (data parsedResponse),
                              tokensSent = jsAdd tokensSent1 (orZero (fixTokensSent parsedResponse)),
                              tokensReceived =
                                jsAdd tokensReceived1 (orZero (fixTokensReceived parsedResponse)),
                              cost = jsAdd cost1 (orZero (fixCost parsedResponse))\<rparr>,
                         reports, w2))))"

text \<open>
  The retry loop, \<^verbatim>\<open>while (retries > 0)\<close>, for a whole number of retries. The loop
  left with no attempt made returns \<open>undefined\<close> (\<open>Inr None\<close>).
\<close>

fun retryLoop ::
  "'d env \<Rightarrow> model \<Rightarrow> 'd promptData \<Rightarrow> nat \<Rightarrow> nat \<Rightarrow> counters \<Rightarrow> 'p world
     \<Rightarrow> ((error + callResult option) \<times> 'p world) option" where
  "retryLoop env m promptData retryDelay 0 acc w = Some (Inr None, w)"
| "retryLoop env m promptData retryDelay (Suc n) acc w =
     (case process (callTask env m promptData acc) (w\<lparr>attempts := Suc (attempts w)\<rparr>) of
        None \<Rightarrow> None
      | Some (Inr res, w') \<Rightarrow> Some (Inr (Some res), w')
      | Some (Inl (err, acc'), w') \<Rightarrow>
          (let w'' = w'\<lparr>caught := caught w' @ [err]\<rparr> in
           if n = 0 then Some (Inl err, w'')
           else retryLoop env m promptData retryDelay n acc'
                  (w''\<lparr>delays := delays w'' @ [retryDelay]\<rparr>)))"

definition call ::
  "'d env \<Rightarrow> model \<Rightarrow> 'd inputData \<Rightarrow> nat \<Rightarrow> nat \<Rightarrow> 'p world
     \<Rightarrow> ((error + callResult option) \<times> 'p world) option" where
  "call env m d retries retryDelay w =
     (let tokenCount0 = countTokens env \<lparr>inputData = d, remainingTokenCount = None, tokenCount = None\<rparr>;
          remainingTokenCount0 = jsSub (toNumber (maxTokens m)) (natNum tokenCount0)
      in if jsLt remainingTokenCount0 (Num 0) then Some (Inl TokenCountExceedsMaxTokens, w)
         else
          (let promptData = \<lparr>inputData = d, remainingTokenCount = Some remainingTokenCount0,
                             tokenCount = Some tokenCount0\<rparr>
           in if dryrun d then
                (let tokensSent1 = jsAdd (Num 0) (natNum (countTokens env promptData));
                     tokensReceived1 = jsAdd (Num 0)
                       (case responseTokenLength d of
                          None \<Rightarrow> jsSub (toNumber (maxTokens m)) tokensSent1
                        | Some n \<Rightarrow> if n = 0 then jsSub (toNumber (maxTokens m)) tokensSent1
                                    else natNum n);
                     cost1 = jsAdd (Num 0) (calculateCost m tokensSent1 tokensReceived1)
                 in Some (Inr (Some \<lparr>response = None, tokensSent = tokensSent1,
                                      tokensReceived = tokensReceived1, cost = cost1\<rparr>), w))
              else retryLoop env m promptData retryDelay retries (Num 0, Num 0, Num 0) w))"

section \<open>TextSplitter\<close>

text \<open>
  The splitter in use is a text splitter of LangChain, outside the repository:
  \<open>createDocuments\<close> gives the page contents of the documents it cuts a text into.
\<close>

record textSplitter =
  chunkOverlap :: nat
  createDocuments :: "string \<Rightarrow> string list"

record excerptRec =
  excerpt :: string
  excerptTokenLength :: nat
  excerptPercentageLength :: jsnum

record splitResult =
  totalTextTokenLength :: nat
  excerpts :: "excerptRec list"

definition splitText :: "'d env \<Rightarrow> textSplitter \<Rightarrow> string \<Rightarrow> splitResult" where
  "splitText env sp text =
     (let totalTextTokenLength0 = textTokens env text;
          chunks0 = filter (\<lambda>c. c \<noteq> []) (createDocuments sp text);
          chunks = (if chunks0 = [] then [text] else chunks0);
          totalTextTokenLength1 = totalTextTokenLength0 + chunkOverlap sp * length chunks
      in \<lparr>totalTextTokenLength = totalTextTokenLength1,
          excerpts = map (\<lambda>c.
            \<lparr>excerpt = c,
             excerptTokenLength = textTokens env c,
             excerptPercentageLength =
               jsRound (dbl (jsMul (dbl (jsDiv (natNum (textTokens env c))
                                               (natNum totalTextTokenLength1)))
                                   (Num 100)))\<rparr>) chunks\<rparr>)"

section \<open>DocumentPrompt\<close>

text \<open>The arguments built for one excerpt, and what the progress callback is given.\<close>

record docArgs =
  argExcerpt :: excerptRec
  argTotalTextTokenLength :: nat
  argCurrentTokenCount :: nat
  currentPercentageLength :: jsnum
  remainingPercentageLength :: jsnum
  argResponse :: "string option"

record progressState =
  progressArgs :: docArgs
  progressCost :: jsnum
  progressTokensSent :: jsnum
  progressTokensReceived :: jsnum
  progressResponse :: "json option"
  progressCount :: nat

text \<open>The callback returns (\<open>True\<close> for \<^verbatim>\<open>'stop'\<close>) or throws.\<close>

record docSettings =
  settingsDryrun :: bool
  progress :: "(progressState \<Rightarrow> error + bool) option"

record documentPrompt =
  docModel :: model
  docResponseTokenLength :: "nat option"

text \<open>The variables of the loop of \<open>DocumentPrompt.call\<close>.\<close>

record docState =
  count :: nat
  docTokensSent :: jsnum
  docTokensReceived :: jsnum
  docCost :: jsnum
  docResponse :: "json option"
  currentTokenCount :: nat

datatype outcome = Continue | Break | Caught error

definition excerptArgs :: "docArgs env \<Rightarrow> nat \<Rightarrow> excerptRec \<Rightarrow> docState \<Rightarrow> docArgs" where
  "excerptArgs env totalLength e st =
     (let currentPercentageLength0 =
            jsRound (dbl (jsMul (dbl (jsDiv (natNum (currentTokenCount st))
                                            (natNum totalLength)))
                                (Num 100)))
      in \<lparr>argExcerpt = e,
          argTotalTextTokenLength = totalLength,
          argCurrentTokenCount = currentTokenCount st,
          currentPercentageLength = currentPercentageLength0,
          remainingPercentageLength =
            jsSub (jsSub (Num 100) (excerptPercentageLength e)) currentPercentageLength0,
          argResponse = (case docResponse st of
                           None \<Rightarrow> None
                         | Some r \<Rightarrow> if truthy r then Some (stringify env r) else None)\<rparr>)"

text \<open>The two branches on \<open>settings.dryrun\<close>: the estimate, or the call of the prompt
  (with its default five retries, one second apart).\<close>

definition excerptCall ::
  "docArgs env \<Rightarrow> documentPrompt \<Rightarrow> docSettings \<Rightarrow> docArgs \<Rightarrow> docState \<Rightarrow> progressState world
     \<Rightarrow> ((error + docState) \<times> progressState world) option" where
  "excerptCall env dp settings args st w =
     (let d = \<lparr>dryrun = settingsDryrun settings,
               responseTokenLength = docResponseTokenLength dp, vars = args\<rparr>
      in if settingsDryrun settings then
           (let tokenCount0 = natNum (countTokens env
                  \<lparr>inputData = d, remainingTokenCount = None, tokenCount = None\<rparr>);
                len = (case docResponseTokenLength dp of None \<Rightarrow> NaN | Some n \<Rightarrow> natNum n);
                tokensSent1 = jsAdd (docTokensSent st) (jsAdd tokenCount0 len);
                tokensReceived1 = jsAdd (docTokensReceived st) (jsAdd tokenCount0 len);
                cost1 = jsAdd (docCost st) (calculateCost (docModel dp) tokensSent1 tokensReceived1)
            in Some (Inr (st\<lparr>docTokensSent := tokensSent1, docTokensReceived := tokensReceived1,
                              docCost := cost1\<rparr>), w))
         else
           (case call env (docModel dp) d 5 1000 w of
              None \<Rightarrow> None
            | Some (Inl err, w') \<Rightarrow> Some (Inl err, w')
            | Some (Inr res, w') \<Rightarrow>
                Some (Inr (st\<lparr>docCost := jsAdd (docCost st) (orZero (map_option cost res)),
                               docTokensSent :=
                                 jsAdd (docTokensSent st) (orZero (map_option tokensSent res)),
                               docTokensReceived :=
                                 jsAdd (docTokensReceived st) (orZero (map_option tokensReceived res)),
                               docResponse :=
                                 (case res of
                                    None \<Rightarrow> docResponse st
                                  | Some r \<Rightarrow>
                                      (case response r of
                                         None \<Rightarrow> docResponse st
                                       | Some v \<Rightarrow> if truthy v then Some v else docResponse st))\<rparr>),
                      w')))"

text \<open>What the progress callback is called with: the arguments of the excerpt, extended
  by the cost, the token counts, the response and the count of the loop.\<close>

definition progressArgument :: "docArgs \<Rightarrow> docState \<Rightarrow> progressState" where
  "progressArgument args st =
     \<lparr>progressArgs = args, progressCost = docCost st, progressTokensSent = docTokensSent st,
      progressTokensReceived = docTokensReceived st, progressResponse = docResponse st,
      progressCount = count st\<rparr>"

text \<open>The body of the loop for one excerpt: what happened, the variables and the world
  after it. An error thrown anywhere in the body is caught by the loop.\<close>

definition excerptBody ::
  "docArgs env \<Rightarrow> documentPrompt \<Rightarrow> docSettings \<Rightarrow> nat \<Rightarrow> excerptRec \<Rightarrow> docState
     \<Rightarrow> progressState world \<Rightarrow> (outcome \<times> docState \<times> progressState world) option" where
  "excerptBody env dp settings totalLength e st w =
     (let args = excerptArgs env totalLength e st in
      case excerptCall env dp settings args st w of
        None \<Rightarrow> None
      | Some (Inl err, w') \<Rightarrow> Some (Caught err, st, w')
      | Some (Inr st1, w') \<Rightarrow>
          (let st2 = st1\<lparr>currentTokenCount := currentTokenCount st1 + excerptTokenLength e,
                         count := Suc (count st1)\<rparr>
           in case progress settings of
                None \<Rightarrow> Some (Continue, st2, w')
              | Some callback \<Rightarrow>
                  (let ps = progressArgument args st2;
                       w'' = w'\<lparr>progressCalls := progressCalls w' @ [ps]\<rparr>
                   in case callback ps of
                        Inl err \<Rightarrow> Some (Caught err, st2, w'')
                      | Inr stop \<Rightarrow> Some (if stop then Break else Continue, st2, w''))))"

fun docLoop ::
  "docArgs env \<Rightarrow> documentPrompt \<Rightarrow> docSettings \<Rightarrow> nat \<Rightarrow> excerptRec list \<Rightarrow> docState
     \<Rightarrow> progressState world \<Rightarrow> (docState \<times> progressState world) option" where
  "docLoop env dp settings totalLength [] st w = Some (st, w)"
| "docLoop env dp settings totalLength (e # es) st w =
     (case excerptBody env dp settings totalLength e st w of
        None \<Rightarrow> None
      | Some (Break, st', w') \<Rightarrow> Some (st', w')
      | Some (Continue, st', w') \<Rightarrow> docLoop env dp settings totalLength es st' w'
      | Some (Caught err, st', w') \<Rightarrow>
          docLoop env dp settings totalLength es st' (w'\<lparr>consoleLog := consoleLog w' @ [err]\<rparr>))"

definition initialState :: docState where
  "initialState = \<lparr>count = 0, docTokensSent = Num 0, docTokensReceived = Num 0,
                   docCost = Num 0, docResponse = None, currentTokenCount = 0\<rparr>"

text \<open>\<open>DocumentPrompt.call\<close>, with the splitter that line 459 has set.\<close>

definition documentCall ::
  "docArgs env \<Rightarrow> documentPrompt \<Rightarrow> textSplitter \<Rightarrow> string \<Rightarrow> docSettings
     \<Rightarrow> progressState world \<Rightarrow> (callResult \<times> progressState world) option" where
  "documentCall env dp sp text settings w =
     (let split = splitText env sp text in
      case docLoop env dp settings (totalTextTokenLength split) (excerpts split) initialState w of
        None \<Rightarrow> None
      | Some (st, w') \<Rightarrow>
          Some (\<lparr>response = docResponse st, tokensSent = docTokensSent st,
                 tokensReceived = docTokensReceived st, cost = docCost st\<rparr>, w'))"

section \<open>Example configuration\<close>

text \<open>A model of a hundred tokens, a limiter with capacity to spare, and a prompt whose
  rendering does not depend on the data.\<close>

definition exLimiter :: rateLimiter where
  "exLimiter = \<lparr>requestLimiter = \<lparr>reservoir = Num 10, reservoirRefreshAmount = Num 10\<rparr>,
                tokenLimiter = \<lparr>reservoir = Num 100, reservoirRefreshAmount = Num 100\<rparr>\<rparr>"

definition exWorld :: "'p world" where
  "exWorld = \<lparr>limiter = exLimiter, chainCalls = 0, fixCalls = 0, attempts = 0, delays = [],
              caught = [], consoleLog = [], progressCalls = []\<rparr>"

definition exModel :: model where
  "exModel = \<lparr>modelName = ''gpt-4'', maxTokens = Some 100, tokenTxPrice = Some 1,
              tokensRxPrice = Some 2\<rparr>"

definition exData :: "unit inputData" where
  "exData = \<lparr>dryrun = False, responseTokenLength = None, vars = ()\<rparr>"

text \<open>The tokenizer counts characters. The first completion is the text \<open>bad\<close>, which
  neither parser accepts; every later one is \<open>ok\<close>, which validates.\<close>

definition exEnv :: "unit env" where
  "exEnv = \<lparr>formatPrompt = (\<lambda>_. ''p''),
            textTokens = length,
            chainCall = (\<lambda>k _. Inr (if k = 0 then ''bad'' else ''ok'')),
            parserParse = (\<lambda>t. if t = ''ok'' then Inr (JString ''ok'') else Inl (Thrown ''parse'')),
            fixingParse = (\<lambda>_ _. Inl (Thrown ''fix'')),
            stringify = (\<lambda>_. ''s'')\<rparr>"

text \<open>The same, with a fixing parser that repairs every text.\<close>

definition exEnvFix :: "unit env" where
  "exEnvFix = exEnv\<lparr>fixingParse := (\<lambda>_ _. Inr (JString ''fixed''))\<rparr>"

text \<open>A task that reports a consumption of 42 tokens and returns.\<close>

definition exTask ::
  "unit world \<Rightarrow> ((error + string) \<times> report list \<times> unit world) option" where
  "exTask w = Some (Inr ''done'', [(Num 42, [])], w)"

text \<open>A prompt whose template prints \<open>tokenCount\<close>: the filler is three characters
  long, the count four. A model of three tokens whose received tokens are dear.\<close>

definition exEnvGrow :: "unit env" where
  "exEnvGrow = exEnv\<lparr>formatPrompt :=
      (\<lambda>pd. case tokenCount pd of None \<Rightarrow> ''xxx'' | Some _ \<Rightarrow> ''1234'')\<rparr>"

definition exModelTight :: model where
  "exModelTight = exModel\<lparr>maxTokens := Some 3, tokensRxPrice := Some 5\<rparr>"

text \<open>Dry runs: with a declared response length of zero, and of seven.\<close>

definition exDryrun :: "unit inputData" where
  "exDryrun = \<lparr>dryrun = True, responseTokenLength = Some 0, vars = ()\<rparr>"

definition exEstimate :: "unit inputData" where
  "exEstimate = \<lparr>dryrun = True, responseTokenLength = Some 7, vars = ()\<rparr>"

text \<open>A splitter with an overlap of two that cuts a text into its first four
  characters, an empty piece, and what follows the first two.\<close>

definition exSplitter :: textSplitter where
  "exSplitter = \<lparr>chunkOverlap = 2, createDocuments = (\<lambda>t. [take 4 t, [], drop 2 t])\<rparr>"

text \<open>
  A document prompt whose rendered prompt is the excerpt. The completion echoes the
  excerpt, except that the chain throws on the excerpt \<open>fail\<close>; the parser accepts every
  text as a string, the text \<open>mute\<close> as the empty string. The splitter cuts after four
  characters. The progress callback stops at once.
\<close>

definition exDocEnv :: "docArgs env" where
  "exDocEnv = \<lparr>formatPrompt = (\<lambda>pd. excerpt (argExcerpt (vars (inputData pd)))),
               textTokens = length,
               chainCall = (\<lambda>_ pd. if excerpt (argExcerpt (vars (inputData pd))) = ''fail''
                                     then Inl (Thrown ''down'')
                                     else Inr (excerpt (argExcerpt (vars (inputData pd))))),
               parserParse = (\<lambda>t. Inr (JString (if t = ''mute'' then [] else t))),
               fixingParse = (\<lambda>_ _. Inl (Thrown ''fix'')),
               stringify = (\<lambda>_. ''s'')\<rparr>"

definition exDocSplitter :: textSplitter where
  "exDocSplitter = \<lparr>chunkOverlap = 0, createDocuments = (\<lambda>t. [take 4 t, drop 4 t])\<rparr>"

definition exDocPrompt :: documentPrompt where
  "exDocPrompt = \<lparr>docModel = exModel, docResponseTokenLength = Some 10\<rparr>"


definition exNoProgress :: docSettings where
  "exNoProgress = \<lparr>settingsDryrun = False, progress = None\<rparr>"

text \<open>The two excerpts of the text \<open>failgood\<close>, and the world after the five attempts
  on the first.\<close>

definition exFail :: excerptRec where
  "exFail = \<lparr>excerpt = ''fail'', excerptTokenLength = 4, excerptPercentageLength = Num 50\<rparr>"

definition exGood :: excerptRec where
  "exGood = \<lparr>excerpt = ''good'', excerptTokenLength = 4, excerptPercentageLength = Num 50\<rparr>"

definition exWorldDown :: "progressState world" where
  "exWorldDown =
     \<lparr>limiter = \<lparr>requestLimiter = \<lparr>reservoir = Num 5, reservoirRefreshAmount = Num 10\<rparr>,
                 tokenLimiter = \<lparr>reservoir = Num 95, reservoirRefreshAmount = Num 100\<rparr>\<rparr>,
      chainCalls = 5, fixCalls = 0, attempts = 5, delays = [1000, 1000, 1000, 1000],
      caught = [Thrown ''down'', Thrown ''down'', Thrown ''down'', Thrown ''down'',
                Thrown ''down''],
      consoleLog = [], progressCalls = []\<rparr>"

text \<open>Two more excerpts; the world after one call that succeeded at once; the result
  of such a call; the variables of the loop after it, before and after the excerpt is
  counted.\<close>

definition exNext :: excerptRec where
  "exNext = \<lparr>excerpt = ''next'', excerptTokenLength = 4, excerptPercentageLength = Num 50\<rparr>"


definition exWorldOnce :: "progressState world" where
  "exWorldOnce =
     \<lparr>limiter = \<lparr>requestLimiter = \<lparr>reservoir = Num 9, reservoirRefreshAmount = Num 10\<rparr>,
                 tokenLimiter = \<lparr>reservoir = Num 91, reservoirRefreshAmount = Num 100\<rparr>\<rparr>,
      chainCalls = 1, fixCalls = 0, attempts = 1, delays = [], caught = [],
      consoleLog = [], progressCalls = []\<rparr>"

definition exResult :: "string \<Rightarrow> callResult" where
  "exResult s = \<lparr>response = Some (JString s), tokensSent = Num 4, tokensReceived = Num 4,
                  cost = Num 12\<rparr>"



text \<open>A completion chain that is down; the data of the prompt as \<open>Prompt.call\<close> extends
  it; a limiter whose request reservoir is never refilled.\<close>

definition exEnvDown :: "unit env" where
  "exEnvDown = exEnv\<lparr>chainCall := (\<lambda>_ _. Inl (Thrown ''down''))\<rparr>"

definition exPromptData :: "unit promptData" where
  "exPromptData = \<lparr>inputData = exData, remainingTokenCount = Some (Num 99),
                   tokenCount = Some 1\<rparr>"

definition exWorldShut :: "unit world" where
  "exWorldShut =
     exWorld\<lparr>limiter := exLimiter\<lparr>requestLimiter :=
                \<lparr>reservoir = Num 0, reservoirRefreshAmount = Num 0\<rparr>\<rparr>\<rparr>"

text \<open>A document prompt whose completions arrive, the completion \<open>fail\<close> failing both
  parsers. One whose completion chain is down. A progress callback that throws.\<close>

definition exDocEnvBad :: "docArgs env" where
  "exDocEnvBad =
     exDocEnv\<lparr>chainCall := (\<lambda>_ pd. Inr (excerpt (argExcerpt (vars (inputData pd))))),
              parserParse := (\<lambda>t. if t = ''fail'' then Inl (Thrown ''parse'')
                                   else Inr (JString t))\<rparr>"

definition exDocEnvDown :: "docArgs env" where
  "exDocEnvDown = exDocEnv\<lparr>chainCall := (\<lambda>_ _. Inl (Thrown ''down''))\<rparr>"

definition exThrowing :: docSettings where
  "exThrowing = \<lparr>settingsDryrun = False, progress = Some (\<lambda>_. Inl (Thrown ''callback''))\<rparr>"

text \<open>A text of forty tokens and a splitter that cuts it after the first twenty-three.\<close>

definition exText :: string where
  "exText = replicate 40 CHR ''x''"

definition exSplitterUneven :: textSplitter where
  "exSplitterUneven = \<lparr>chunkOverlap = 0, createDocuments = (\<lambda>t. [take 23 t, drop 23 t])\<rparr>"

text \<open>A task that reports a consumption of 42 tokens and then throws. A limiter whose
  token reservoir is used up, and one whose request reservoir is.\<close>

definition exTaskThrows ::
  "unit world \<Rightarrow> ((error + string) \<times> report list \<times> unit world) option" where
  "exTaskThrows w = Some (Inl (Thrown ''boom''), [(Num 42, [])], w)"

definition exWorldTokensShort :: "unit world" where
  "exWorldTokensShort =
     exWorld\<lparr>limiter :=
       \<lparr>requestLimiter = \<lparr>reservoir = Num 9, reservoirRefreshAmount = Num 10\<rparr>,
        tokenLimiter = \<lparr>reservoir = Num 0, reservoirRefreshAmount = Num 100\<rparr>\<rparr>\<rparr>"

definition exWorldRequestsShort :: "unit world" where
  "exWorldRequestsShort =
     exWorld\<lparr>limiter :=
       \<lparr>requestLimiter = \<lparr>reservoir = Num 0, reservoirRefreshAmount = Num 10\<rparr>,
        tokenLimiter = \<lparr>reservoir = Num 15, reservoirRefreshAmount = Num 100\<rparr>\<rparr>\<rparr>"

section \<open>Arithmetic of JavaScript numbers\<close>

lemma jsSub_Num [simp]: "jsSub (Num a) (Num b) = Num (a - b)"
  by (simp add: jsSub_def)

lemma jsAdd_zero_left [simp]: "jsAdd (Num 0) x = x"
  by (cases x) simp_all

lemma jsAdd_NaN_right [simp]: "jsAdd x NaN = NaN"
  by (cases x) simp_all

lemma jsMul_NaN_right [simp]: "jsMul x NaN = NaN"
  by (cases x) simp_all

lemma jsLe_Num [simp]: "jsLe (Num a) (Num b) = (a \<le> b)"
  by (auto simp: jsLe_def)

lemma toNumber_simps [simp]: "toNumber None = NaN" "toNumber (Some a) = Num a"
  by (simp_all add: toNumber_def)

lemma calculateCost_Num:
  "tokenTxPrice m = Some tx \<Longrightarrow> tokensRxPrice m = Some rx \<Longrightarrow>
   calculateCost m (Num s) (Num r) = Num (s * tx + rx * r)"
  by (simp add: calculateCost_def)

section \<open>The token budget\<close>

text \<open>
  Claim C2. When the measured token count of the prompt exceeds the model's maximum
  (\<open>maxTokens - tokenCount < 0\<close>), \<open>Prompt.call\<close> throws the budget error at once: the
  world is the one it was given, so the completion chain was not invoked, no attempt was
  started and no delay was slept, whatever the number of retries.
\<close>

theorem call_budget_exceeded:
  assumes "jsLt (jsSub (toNumber (maxTokens m))
             (natNum (countTokens env
                \<lparr>inputData = d, remainingTokenCount = None, tokenCount = None\<rparr>)))
             (Num 0)"
  shows "call env m d retries retryDelay w = Some (Inl TokenCountExceedsMaxTokens, w)"
  using assms by (simp add: call_def Let_def)

theorem call_budget_exceeded_witness:
  "jsLt (jsSub (toNumber (maxTokens (exModel\<lparr>maxTokens := Some 0\<rparr>)))
          (natNum (countTokens exEnv
             \<lparr>inputData = exData, remainingTokenCount = None, tokenCount = None\<rparr>)))
        (Num 0)
   \<and> call exEnv (exModel\<lparr>maxTokens := Some 0\<rparr>) exData 5 1000 (exWorld :: unit world)
       = Some (Inl TokenCountExceedsMaxTokens, exWorld)
   \<and> chainCalls (exWorld :: unit world) = 0 \<and> attempts (exWorld :: unit world) = 0"
proof -
  have h: "jsLt (jsSub (toNumber (maxTokens (exModel\<lparr>maxTokens := Some 0\<rparr>)))
          (natNum (countTokens exEnv
             \<lparr>inputData = exData, remainingTokenCount = None, tokenCount = None\<rparr>)))
        (Num 0)"
    by (simp add: exModel_def exEnv_def countTokens_def natNum_def)
  show ?thesis
    using h call_budget_exceeded [OF h, of 5 1000 "exWorld :: unit world"]
    by (simp add: exWorld_def)
qed

section \<open>Admission, and what a call leaves in the world\<close>

lemma refill_refresh [simp]:
  "reservoirRefreshAmount (requestLimiter (refill l)) = reservoirRefreshAmount (requestLimiter l)"
  "reservoirRefreshAmount (tokenLimiter (refill l)) = reservoirRefreshAmount (tokenLimiter l)"
  "reservoir (requestLimiter (refill l)) = reservoirRefreshAmount (requestLimiter l)"
  "reservoir (tokenLimiter (refill l)) = reservoirRefreshAmount (tokenLimiter l)"
  by (simp_all add: refill_def)

lemma takeOne_refresh [simp]:
  "reservoirRefreshAmount (requestLimiter (takeOne k l)) = reservoirRefreshAmount (requestLimiter l)"
  "reservoirRefreshAmount (tokenLimiter (takeOne k l)) = reservoirRefreshAmount (tokenLimiter l)"
  by (cases k; simp)+

lemma schedule_refresh:
  assumes "schedule k l = Some l'"
  shows "reservoirRefreshAmount (requestLimiter l') = reservoirRefreshAmount (requestLimiter l)"
    and "reservoirRefreshAmount (tokenLimiter l') = reservoirRefreshAmount (tokenLimiter l)"
  using assms by (auto simp: schedule_def split: if_splits)

lemma schedule_hasCapacity:
  "schedule k l = Some l' \<Longrightarrow> hasCapacity l' = hasCapacity l"
  by (simp add: hasCapacity_def schedule_refresh)

lemma schedule_returns:
  "hasCapacity l \<Longrightarrow> \<exists>l'. schedule k l = Some l'"
  by (cases k) (simp_all add: schedule_def hasCapacity_def)

lemma admit_SomeD:
  "admit l = Some l2 \<Longrightarrow> \<exists>l1. schedule Requests l = Some l1 \<and> schedule Tokens l1 = Some l2"
  by (simp add: admit_def split: option.splits)

lemma admit_hasCapacity:
  "admit l = Some l' \<Longrightarrow> hasCapacity l' = hasCapacity l"
  by (auto dest!: admit_SomeD simp: schedule_hasCapacity)

lemma admit_returns:
  assumes "hasCapacity l"
  shows "\<exists>l'. admit l = Some l'"
proof -
  from schedule_returns [OF assms] obtain l1 where l1: "schedule Requests l = Some l1"
    by blast
  with assms have "hasCapacity l1" by (simp add: schedule_hasCapacity)
  from schedule_returns [OF this] obtain l2 where "schedule Tokens l1 = Some l2" by blast
  with l1 show ?thesis by (simp add: admit_def)
qed

lemma hasCapacity_admits: "hasCapacity l \<Longrightarrow> admits l"
  using admit_returns [of l] by (auto simp: admits_def)

lemma process_admit:
  "process func w =
     (case admit (limiter w) of
        None \<Rightarrow> None
      | Some l \<Rightarrow>
          (case func (w\<lparr>limiter := l\<rparr>) of
             None \<Rightarrow> None
           | Some (Inl err, reports, w') \<Rightarrow> Some (Inl err, w')
           | Some (Inr res, reports, w') \<Rightarrow>
               Some (Inr res,
                     w'\<lparr>limiter := (limiter w')\<lparr>tokenLimiter :=
                           incrementReservoir (tokenLimiter (limiter w'))
                             (jsNeg (tokensUsedOf reports))\<rparr>\<rparr>)))"
  by (simp add: process_def admit_def split: option.splits)

lemma sameTrace_refl [simp]: "sameTrace w w"
  by (simp add: sameTrace_def)

lemma sameTrace_trans: "sameTrace w w1 \<Longrightarrow> sameTrace w1 w2 \<Longrightarrow> sameTrace w w2"
  by (simp add: sameTrace_def)

lemma sameTrace_limiter [simp]:
  "sameTrace (w\<lparr>limiter := l\<rparr>) w' = sameTrace w w'"
  "sameTrace w (w'\<lparr>limiter := l\<rparr>) = sameTrace w w'"
  "sameTrace (w\<lparr>chainCalls := c\<rparr>) w' = sameTrace w w'"
  "sameTrace w (w'\<lparr>chainCalls := c\<rparr>) = sameTrace w w'"
  "sameTrace (w\<lparr>fixCalls := c\<rparr>) w' = sameTrace w w'"
  "sameTrace w (w'\<lparr>fixCalls := c\<rparr>) = sameTrace w w'"
  by (simp_all add: sameTrace_def)

lemma process_SomeD:
  assumes "process func w = Some (r, w')"
  shows "\<exists>l x reports w1.
           admit (limiter w) = Some l
         \<and> func (w\<lparr>limiter := l\<rparr>) = Some (x, reports, w1)
         \<and> ((\<exists>err. x = Inl err \<and> r = Inl err \<and> w' = w1)
            \<or> (\<exists>res. x = Inr res \<and> r = Inr res
                 \<and> w' = w1\<lparr>limiter := (limiter w1)\<lparr>tokenLimiter :=
                          incrementReservoir (tokenLimiter (limiter w1))
                            (jsNeg (tokensUsedOf reports))\<rparr>\<rparr>))"
  using assms
  by (auto simp: process_admit split: option.splits sum.splits prod.splits)

lemma process_sameTrace:
  assumes "process func w = Some (r, w')"
    and "\<And>v x reps v'. func v = Some (x, reps, v') \<Longrightarrow> sameTrace v v'"
  shows "sameTrace w w'"
proof -
  from process_SomeD [OF assms(1)] obtain l x reports w1 where
    f: "func (w\<lparr>limiter := l\<rparr>) = Some (x, reports, w1)"
    and w': "w' = w1 \<or> w' = w1\<lparr>limiter := (limiter w1)\<lparr>tokenLimiter :=
                          incrementReservoir (tokenLimiter (limiter w1))
                            (jsNeg (tokensUsedOf reports))\<rparr>\<rparr>"
    by blast
  from assms(2) [OF f] have "sameTrace w w1" by simp
  with w' show ?thesis by auto
qed

lemma process_hasCapacity:
  assumes "process func w = Some (r, w')" and "hasCapacity (limiter w)"
    and "\<And>v x reps v'. hasCapacity (limiter v) \<Longrightarrow> func v = Some (x, reps, v')
           \<Longrightarrow> hasCapacity (limiter v')"
  shows "hasCapacity (limiter w')"
proof -
  from process_SomeD [OF assms(1)] obtain l x reports w1 where
    l: "admit (limiter w) = Some l"
    and f: "func (w\<lparr>limiter := l\<rparr>) = Some (x, reports, w1)"
    and w': "w' = w1 \<or> w' = w1\<lparr>limiter := (limiter w1)\<lparr>tokenLimiter :=
                          incrementReservoir (tokenLimiter (limiter w1))
                            (jsNeg (tokensUsedOf reports))\<rparr>\<rparr>"
    by blast
  have "hasCapacity (limiter (w\<lparr>limiter := l\<rparr>))"
    using assms(2) admit_hasCapacity [OF l] by simp
  from assms(3) [OF this f] have "hasCapacity (limiter w1)" .
  with w' show ?thesis by (auto simp: hasCapacity_def incrementReservoir_def)
qed

lemma process_returns:
  assumes "hasCapacity (limiter w)"
    and "\<And>v. hasCapacity (limiter v) \<Longrightarrow> \<exists>y. func v = Some y"
  shows "\<exists>y. process func w = Some y"
proof -
  from admit_returns [OF assms(1)] obtain l where l: "admit (limiter w) = Some l" by blast
  have "hasCapacity (limiter (w\<lparr>limiter := l\<rparr>))"
    using assms(1) admit_hasCapacity [OF l] by simp
  from assms(2) [OF this] obtain y where "func (w\<lparr>limiter := l\<rparr>) = Some y" by blast
  then show ?thesis using l
    by (cases y) (auto simp: process_admit split: sum.splits)
qed

lemma fixTask_SomeD:
  "fixTask env pm text P w = Some (x, reports, w') \<Longrightarrow> w' = w\<lparr>fixCalls := Suc (fixCalls w)\<rparr>"
  by (auto simp: fixTask_def Let_def split: sum.splits)

lemma fixTask_returns: "\<exists>y. fixTask env pm text P w = Some y"
  by (auto simp: fixTask_def Let_def split: sum.splits)

lemma parse_sameTrace:
  assumes "parse env pm text P w = Some (r, w')"
  shows "sameTrace w w'"
proof (cases "parserParse env text")
  case (Inr d)
  with assms show ?thesis by (simp add: parse_def)
next
  case (Inl e)
  with assms obtain r0 where p: "process (fixTask env pm text P) w = Some (r0, w')"
    by (auto simp: parse_def split: option.splits sum.splits prod.splits)
  show ?thesis
    by (rule process_sameTrace [OF p]) (auto dest: fixTask_SomeD)
qed

lemma parse_hasCapacity:
  assumes "parse env pm text P w = Some (r, w')" and "hasCapacity (limiter w)"
  shows "hasCapacity (limiter w')"
proof (cases "parserParse env text")
  case (Inr d)
  with assms show ?thesis by (simp add: parse_def)
next
  case (Inl e)
  with assms obtain r0 where p: "process (fixTask env pm text P) w = Some (r0, w')"
    by (auto simp: parse_def split: option.splits sum.splits prod.splits)
  show ?thesis
    by (rule process_hasCapacity [OF p assms(2)]) (auto dest: fixTask_SomeD)
qed

lemma parse_returns:
  assumes "hasCapacity (limiter w)"
  shows "\<exists>y. parse env pm text P w = Some y"
proof (cases "parserParse env text")
  case (Inr d)
  then show ?thesis by (simp add: parse_def)
next
  case (Inl e)
  from process_returns [OF assms, of "fixTask env pm text P"] fixTask_returns
  obtain y where "process (fixTask env pm text P) w = Some y" by metis
  with Inl show ?thesis
    by (cases y) (auto simp: parse_def split: sum.splits)
qed

lemma callTask_sameTrace:
  assumes "callTask env m pd acc w = Some (x, reports, w')"
  shows "sameTrace w w'"
  using assms
  by (auto simp: callTask_def Let_def split: prod.splits sum.splits option.splits
           dest!: parse_sameTrace)

lemma callTask_hasCapacity:
  assumes "callTask env m pd acc w = Some (x, reports, w')" and "hasCapacity (limiter w)"
  shows "hasCapacity (limiter w')"
  using assms
  by (auto simp: callTask_def Let_def split: prod.splits sum.splits option.splits
           dest!: parse_hasCapacity)

lemma callTask_returns:
  assumes "hasCapacity (limiter w)"
  shows "\<exists>y. callTask env m pd acc w = Some y"
proof (cases "chainCall env (chainCalls w) pd")
  case (Inl err)
  then show ?thesis by (simp add: callTask_def Let_def split: prod.splits)
next
  case (Inr rawText)
  obtain s0 r0 c0 where acc: "acc = (s0, r0, c0)" by (cases acc) auto
  have "hasCapacity (limiter (w\<lparr>chainCalls := Suc (chainCalls w)\<rparr>))" using assms by simp
  from parse_returns [OF this] obtain y where
    "parse env (parserModel (modelName m)) rawText (jsAdd s0 (natNum (countTokens env pd)))
       (w\<lparr>chainCalls := Suc (chainCalls w)\<rparr>) = Some y" by blast
  with Inr acc show ?thesis
    by (cases y) (auto simp: callTask_def Let_def split: sum.splits)
qed

lemma parse_chainCalls:
  assumes "parse env pm text P w = Some (r, w')"
  shows "chainCalls w' = chainCalls w"
proof (cases "parserParse env text")
  case (Inr d)
  with assms have "w' = w" by (simp add: parse_def)
  then show ?thesis by (rule arg_cong)
next
  case (Inl e)
  with assms obtain r0 where p: "process (fixTask env pm text P) w = Some (r0, w')"
    by (auto simp: parse_def split: option.splits sum.splits prod.splits)
  from process_SomeD [OF p] show ?thesis
    by (auto dest!: fixTask_SomeD)
qed

lemma callTask_chainCalls:
  assumes "callTask env m pd acc w = Some (x, reports, w')"
  shows "chainCalls w' = Suc (chainCalls w)"
  using assms
  by (auto simp: callTask_def Let_def split: prod.splits sum.splits option.splits
           dest!: parse_chainCalls)

lemma cycle_chainCalls:
  assumes "process (callTask env m pd acc) v = Some (x, v1)"
  shows "chainCalls v1 = Suc (chainCalls v)"
  using process_SomeD [OF assms] by (auto dest!: callTask_chainCalls)

lemma attempt_returns:
  assumes "hasCapacity (limiter w)"
  shows "\<exists>x w1. process (callTask env m pd acc) (w\<lparr>attempts := Suc (attempts w)\<rparr>) = Some (x, w1)
           \<and> hasCapacity (limiter w1) \<and> attempts w1 = Suc (attempts w) \<and> delays w1 = delays w
           \<and> caught w1 = caught w \<and> consoleLog w1 = consoleLog w
           \<and> progressCalls w1 = progressCalls w"
proof -
  let ?w = "w\<lparr>attempts := Suc (attempts w)\<rparr>"
  have cap: "hasCapacity (limiter ?w)" using assms by simp
  from process_returns [OF cap, of "callTask env m pd acc"] callTask_returns
  obtain y where y: "process (callTask env m pd acc) ?w = Some y" by metis
  obtain x w1 where yy: "y = (x, w1)" by (cases y) auto
  have "sameTrace ?w w1"
    by (rule process_sameTrace [OF y [unfolded yy]]) (rule callTask_sameTrace)
  moreover have "hasCapacity (limiter w1)"
    by (rule process_hasCapacity [OF y [unfolded yy] cap]) (rule callTask_hasCapacity)
  ultimately show ?thesis using y yy by (simp add: sameTrace_def)
qed

lemma retryLoop_attempts:
  assumes "hasCapacity (limiter w)" and "1 \<le> n"
  shows "\<exists>r w' k errs.
           retryLoop env m pd retryDelay n acc w = Some (r, w')
         \<and> hasCapacity (limiter w')
         \<and> 1 \<le> k \<and> k \<le> n
         \<and> attempts w' = attempts w + k
         \<and> delays w' = delays w @ replicate (k - 1) retryDelay
         \<and> caught w' = caught w @ errs
         \<and> consoleLog w' = consoleLog w \<and> progressCalls w' = progressCalls w
         \<and> (case r of
              Inl err \<Rightarrow> k = n \<and> length errs = n \<and> last errs = err
            | Inr None \<Rightarrow> False
            | Inr (Some res) \<Rightarrow> length errs = k - 1)"
  using assms
proof (induction n arbitrary: acc w)
  case 0
  then show ?case by simp
next
  case (Suc n)
  from attempt_returns [OF Suc.prems(1), of env m pd acc] obtain x w1 where
    p: "process (callTask env m pd acc) (w\<lparr>attempts := Suc (attempts w)\<rparr>) = Some (x, w1)"
    and cap1: "hasCapacity (limiter w1)"
    and fr: "attempts w1 = Suc (attempts w)" "delays w1 = delays w" "caught w1 = caught w"
            "consoleLog w1 = consoleLog w" "progressCalls w1 = progressCalls w"
    by blast
  show ?case
  proof (cases x)
    case (Inr res)
    have "retryLoop env m pd retryDelay (Suc n) acc w = Some (Inr (Some res), w1)"
      using p Inr by simp
    then show ?thesis using cap1 fr
      by (intro exI [of _ "Inr (Some res)"] exI [of _ w1] exI [of _ 1] exI [of _ "[]"]) simp
  next
    case (Inl ea)
    obtain err acc' where ea: "ea = (err, acc')" by (cases ea) auto
    let ?w2 = "w1\<lparr>caught := caught w1 @ [err]\<rparr>"
    show ?thesis
    proof (cases "n = 0")
      case True
      have "retryLoop env m pd retryDelay (Suc n) acc w = Some (Inl err, ?w2)"
        using p Inl ea True by simp
      then show ?thesis using cap1 fr True
        by (intro exI [of _ "Inl err"] exI [of _ ?w2] exI [of _ 1] exI [of _ "[err]"]) simp
    next
      case False
      let ?w3 = "?w2\<lparr>delays := delays ?w2 @ [retryDelay]\<rparr>"
      have eq: "retryLoop env m pd retryDelay (Suc n) acc w
                  = retryLoop env m pd retryDelay n acc' ?w3"
        using p Inl ea False by (simp add: Let_def)
      have cap3: "hasCapacity (limiter ?w3)" using cap1 by simp
      from False have n1: "1 \<le> n" by simp
      from Suc.IH [OF cap3 n1, of acc'] obtain r w' k errs where
        r: "retryLoop env m pd retryDelay n acc' ?w3 = Some (r, w')"
        and cap': "hasCapacity (limiter w')"
        and k: "1 \<le> k" "k \<le> n"
        and a: "attempts w' = attempts ?w3 + k"
        and d: "delays w' = delays ?w3 @ replicate (k - 1) retryDelay"
        and c: "caught w' = caught ?w3 @ errs"
        and l: "consoleLog w' = consoleLog ?w3" "progressCalls w' = progressCalls ?w3"
        and res: "case r of Inl err \<Rightarrow> k = n \<and> length errs = n \<and> last errs = err
                  | Inr None \<Rightarrow> False | Inr (Some res) \<Rightarrow> length errs = k - 1"
        by blast
      have d': "delays w' = delays w @ replicate (Suc k - 1) retryDelay"
        using d fr k by (cases k) (simp_all add: replicate_append_same)
      have res': "case r of Inl e \<Rightarrow> Suc k = Suc n \<and> length (err # errs) = Suc n
                               \<and> last (err # errs) = e
                  | Inr None \<Rightarrow> False | Inr (Some res) \<Rightarrow> length (err # errs) = Suc k - 1"
        using res k n1 by (auto split: sum.splits option.splits)
      show ?thesis
        using eq r cap' k a d' c l res' fr
        by (intro exI [of _ r] exI [of _ w'] exI [of _ "Suc k"] exI [of _ "err # errs"]) simp
    qed
  qed
qed

lemma retryLoop_returns:
  assumes "hasCapacity (limiter w)"
  shows "\<exists>r w'. retryLoop env m pd retryDelay n acc w = Some (r, w') \<and> hasCapacity (limiter w')"
proof (cases n)
  case 0
  with assms show ?thesis by simp
next
  case (Suc k)
  then have "1 \<le> n" by simp
  from retryLoop_attempts [OF assms this, of env m pd retryDelay acc]
  show ?thesis by blast
qed

lemma retryLoop_result:
  assumes "retryLoop env m pd retryDelay n acc w = Some (r, w')" and "1 \<le> n"
  shows "\<exists>k errs.
           1 \<le> k \<and> k \<le> n
         \<and> attempts w' = attempts w + k
         \<and> chainCalls w' = chainCalls w + k
         \<and> delays w' = delays w @ replicate (k - 1) retryDelay
         \<and> caught w' = caught w @ errs
         \<and> (case r of
              Inl err \<Rightarrow> k = n \<and> length errs = n \<and> last errs = err
            | Inr None \<Rightarrow> False
            | Inr (Some res) \<Rightarrow> length errs = k - 1)"
  using assms
proof (induction n arbitrary: acc w)
  case 0
  then show ?case by simp
next
  case (Suc n)
  from Suc.prems(1) obtain x w1 where
    p: "process (callTask env m pd acc) (w\<lparr>attempts := Suc (attempts w)\<rparr>) = Some (x, w1)"
    by (auto split: option.splits)
  have "sameTrace (w\<lparr>attempts := Suc (attempts w)\<rparr>) w1"
    by (rule process_sameTrace [OF p]) (rule callTask_sameTrace)
  then have fr: "attempts w1 = Suc (attempts w)" "delays w1 = delays w" "caught w1 = caught w"
    "chainCalls w1 = Suc (chainCalls w)"
    using cycle_chainCalls [OF p] by (simp_all add: sameTrace_def)
  show ?case
  proof (cases x)
    case (Inr res)
    have "r = Inr (Some res)" "w' = w1" using Suc.prems(1) p Inr by simp_all
    then show ?thesis using fr
      by (intro exI [of _ 1] exI [of _ "[]"]) simp
  next
    case (Inl ea)
    obtain err acc' where ea: "ea = (err, acc')" by (cases ea) auto
    let ?w2 = "w1\<lparr>caught := caught w1 @ [err]\<rparr>"
    show ?thesis
    proof (cases "n = 0")
      case True
      have "r = Inl err" "w' = ?w2" using Suc.prems(1) p Inl ea True by simp_all
      then show ?thesis using fr True
        by (intro exI [of _ 1] exI [of _ "[err]"]) simp
    next
      case False
      let ?w3 = "?w2\<lparr>delays := delays ?w2 @ [retryDelay]\<rparr>"
      have eq: "retryLoop env m pd retryDelay n acc' ?w3 = Some (r, w')"
        using Suc.prems(1) p Inl ea False by (simp add: Let_def)
      from False have n1: "1 \<le> n" by simp
      from Suc.IH [OF eq n1] obtain k errs where
        k: "1 \<le> k" "k \<le> n"
        and a: "attempts w' = attempts ?w3 + k" "chainCalls w' = chainCalls ?w3 + k"
        and d: "delays w' = delays ?w3 @ replicate (k - 1) retryDelay"
        and c: "caught w' = caught ?w3 @ errs"
        and res: "case r of Inl err \<Rightarrow> k = n \<and> length errs = n \<and> last errs = err
                  | Inr None \<Rightarrow> False | Inr (Some res) \<Rightarrow> length errs = k - 1"
        by blast
      have d': "delays w' = delays w @ replicate (Suc k - 1) retryDelay"
        using d fr k by (cases k) (simp_all add: replicate_append_same)
      have res': "case r of Inl e \<Rightarrow> Suc k = Suc n \<and> length (err # errs) = Suc n
                               \<and> last (err # errs) = e
                  | Inr None \<Rightarrow> False | Inr (Some res) \<Rightarrow> length (err # errs) = Suc k - 1"
        using res k n1 by (auto split: sum.splits option.splits)
      show ?thesis
        using k a d' c res' fr
        by (intro exI [of _ "Suc k"] exI [of _ "err # errs"]) simp
    qed
  qed
qed

lemma cycle_chain_down:
  assumes "chainCall env (chainCalls w) pd = Inl err" and "admit (limiter w) = Some l"
  shows "process (callTask env m pd acc) w
           = Some (Inl (err, acc), w\<lparr>limiter := l, chainCalls := Suc (chainCalls w)\<rparr>)"
  using assms by (cases acc) (simp add: process_admit callTask_def Let_def)

lemma retryLoop_chain_down:
  assumes "\<forall>k. chainCall env k pd = Inl err" and "hasCapacity (limiter w)"
  shows "\<exists>l. hasCapacity l
           \<and> retryLoop env m pd retryDelay (Suc n) acc w
               = Some (Inl err,
                       w\<lparr>limiter := l,
                          chainCalls := chainCalls w + Suc n,
                          attempts := attempts w + Suc n,
                          delays := delays w @ replicate n retryDelay,
                          caught := caught w @ replicate (Suc n) err\<rparr>)"
  using assms(2)
proof (induction n arbitrary: w)
  case 0
  let ?w = "w\<lparr>attempts := Suc (attempts w)\<rparr>"
  from admit_returns [OF 0] obtain l where l: "admit (limiter w) = Some l" by blast
  have cap: "hasCapacity l" using 0 admit_hasCapacity [OF l] by simp
  have "process (callTask env m pd acc) ?w
          = Some (Inl (err, acc), ?w\<lparr>limiter := l, chainCalls := Suc (chainCalls ?w)\<rparr>)"
    by (rule cycle_chain_down) (simp_all add: assms(1) l)
  then have "retryLoop env m pd retryDelay (Suc 0) acc w
               = Some (Inl err,
                       w\<lparr>limiter := l,
                          chainCalls := chainCalls w + Suc 0,
                          attempts := attempts w + Suc 0,
                          delays := delays w @ replicate 0 retryDelay,
                          caught := caught w @ replicate (Suc 0) err\<rparr>)"
    by simp
  with cap show ?case by blast
next
  case (Suc n)
  let ?w = "w\<lparr>attempts := Suc (attempts w)\<rparr>"
  from admit_returns [OF Suc.prems] obtain l0 where l0: "admit (limiter w) = Some l0" by blast
  have cap0: "hasCapacity l0" using Suc.prems admit_hasCapacity [OF l0] by simp
  let ?v1 = "?w\<lparr>limiter := l0, chainCalls := Suc (chainCalls ?w)\<rparr>"
  let ?v2 = "?v1\<lparr>caught := caught ?v1 @ [err], delays := delays ?v1 @ [retryDelay]\<rparr>"
  have p: "process (callTask env m pd acc) ?w = Some (Inl (err, acc), ?v1)"
    by (rule cycle_chain_down) (simp_all add: assms(1) l0)
  have eq: "retryLoop env m pd retryDelay (Suc (Suc n)) acc w
              = retryLoop env m pd retryDelay (Suc n) acc ?v2"
    using p by (simp add: Let_def del: retryLoop.simps(2)) (simp add: Let_def)
  have "hasCapacity (limiter ?v2)" using cap0 by simp
  from Suc.IH [OF this] obtain l where cap: "hasCapacity l"
    and r: "retryLoop env m pd retryDelay (Suc n) acc ?v2
              = Some (Inl err,
                      ?v2\<lparr>limiter := l,
                          chainCalls := chainCalls ?v2 + Suc n,
                          attempts := attempts ?v2 + Suc n,
                          delays := delays ?v2 @ replicate n retryDelay,
                          caught := caught ?v2 @ replicate (Suc n) err\<rparr>)"
    by blast
  have "retryLoop env m pd retryDelay (Suc (Suc n)) acc w
              = Some (Inl err,
                       w\<lparr>limiter := l,
                          chainCalls := chainCalls w + Suc (Suc n),
                          attempts := attempts w + Suc (Suc n),
                          delays := delays w @ replicate (Suc n) retryDelay,
                          caught := caught w @ replicate (Suc (Suc n)) err\<rparr>)"
    unfolding eq r by (simp add: replicate_append_same)
  with cap show ?case by blast
qed

section \<open>The retry loop\<close>

text \<open>
  Claim C3. Take a call that is not a dry run, on a prompt within the budget, with at
  least one retry allowed; \<open>pd\<close> is the data of the prompt, and a cycle is one admitted
  call-and-parse attempt, \<open>process (callTask env m pd acc)\<close>, begun by counting the
  attempt. The call is the retry loop from \<open>retries\<close> retries and counters at zero, and
  the loop with \<open>Suc n\<close> retries left does this. While the cycle is suspended the loop
  is. A cycle that returns a result ends the loop with that result: no sleep, no further
  cycle. A cycle that throws \<open>err\<close> has its error caught; with no retry left (\<open>n = 0\<close>)
  the loop throws this very \<open>err\<close> without sleeping; otherwise it sleeps the retry delay
  once and goes on with \<open>n\<close> retries, from the counters and the world that the failed
  cycle left. Hence a call that returns has run \<open>k\<close> cycles, \<open>1 \<le> k \<le> retries\<close>, each of
  which invoked the completion chain once, and slept \<open>k - 1\<close> times; a call that throws
  has run all \<open>retries\<close> cycles, every one of them failed, and throws the error caught
  last; a result was preceded by \<open>k - 1\<close> caught errors. On a completion chain that
  always throws \<open>err0\<close>, with a limiter that is refilled, the call throws \<open>err0\<close> after
  \<open>retries\<close> invocations of the chain, \<open>retries\<close> caught errors and \<open>retries - 1\<close> sleeps.
  And with a limiter that is refilled the call does return.
\<close>

theorem call_retry_attempts:
  assumes "1 \<le> retries" and "\<not> dryrun d"
    and "\<not> jsLt (jsSub (toNumber (maxTokens m))
             (natNum (countTokens env
                \<lparr>inputData = d, remainingTokenCount = None, tokenCount = None\<rparr>)))
             (Num 0)"
    and "pd = \<lparr>inputData = d,
              remainingTokenCount = Some (jsSub (toNumber (maxTokens m))
                (natNum (countTokens env
                   \<lparr>inputData = d, remainingTokenCount = None, tokenCount = None\<rparr>))),
              tokenCount = Some (countTokens env
                   \<lparr>inputData = d, remainingTokenCount = None, tokenCount = None\<rparr>)\<rparr>"
  shows "call env m d retries retryDelay w
           = retryLoop env m pd retryDelay retries (Num 0, Num 0, Num 0) w
       \<and> (process (callTask env m pd acc) (v\<lparr>attempts := Suc (attempts v)\<rparr>) = None \<longrightarrow>
            retryLoop env m pd retryDelay (Suc n) acc v = None)
       \<and> (process (callTask env m pd acc) (v\<lparr>attempts := Suc (attempts v)\<rparr>)
            = Some (Inr res, v1) \<longrightarrow>
            retryLoop env m pd retryDelay (Suc n) acc v = Some (Inr (Some res), v1))
       \<and> (process (callTask env m pd acc) (v\<lparr>attempts := Suc (attempts v)\<rparr>)
            = Some (Inl (err, acc'), v1) \<longrightarrow>
            retryLoop env m pd retryDelay (Suc n) acc v
              = (if n = 0 then Some (Inl err, v1\<lparr>caught := caught v1 @ [err]\<rparr>)
                 else retryLoop env m pd retryDelay n acc'
                        (v1\<lparr>caught := caught v1 @ [err],
                            delays := delays v1 @ [retryDelay]\<rparr>)))
       \<and> (call env m d retries retryDelay w = Some (r, w') \<longrightarrow>
          (\<exists>k errs.
              1 \<le> k \<and> k \<le> retries
            \<and> attempts w' = attempts w + k
            \<and> chainCalls w' = chainCalls w + k
            \<and> delays w' = delays w @ replicate (k - 1) retryDelay
            \<and> caught w' = caught w @ errs
            \<and> (case r of
                 Inl err \<Rightarrow> k = retries \<and> length errs = retries \<and> last errs = err
               | Inr None \<Rightarrow> False
               | Inr (Some res) \<Rightarrow> length errs = k - 1)))
       \<and> ((\<forall>k. chainCall env k pd = Inl err0) \<and> hasCapacity (limiter w) \<longrightarrow>
            (\<exists>l. hasCapacity l
               \<and> call env m d retries retryDelay w
                   = Some (Inl err0,
                           w\<lparr>limiter := l,
                              chainCalls := chainCalls w + retries,
                              attempts := attempts w + retries,
                              delays := delays w @ replicate (retries - 1) retryDelay,
                              caught := caught w @ replicate retries err0\<rparr>)))
       \<and> (hasCapacity (limiter w) \<longrightarrow>
            (\<exists>r0 w0. call env m d retries retryDelay w = Some (r0, w0)))"
proof -
  have eq: "call env m d retries retryDelay w
              = retryLoop env m pd retryDelay retries (Num 0, Num 0, Num 0) w"
    using assms(2,3,4) by (simp add: call_def Let_def)
  have count: "call env m d retries retryDelay w = Some (r, w') \<longrightarrow>
          (\<exists>k errs.
              1 \<le> k \<and> k \<le> retries
            \<and> attempts w' = attempts w + k
            \<and> chainCalls w' = chainCalls w + k
            \<and> delays w' = delays w @ replicate (k - 1) retryDelay
            \<and> caught w' = caught w @ errs
            \<and> (case r of
                 Inl err \<Rightarrow> k = retries \<and> length errs = retries \<and> last errs = err
               | Inr None \<Rightarrow> False
               | Inr (Some res) \<Rightarrow> length errs = k - 1))"
    unfolding eq
    using retryLoop_result [of env m pd retryDelay retries "(Num 0, Num 0, Num 0)" w r w',
                            OF _ assms(1)]
    by blast
  have live: "hasCapacity (limiter w) \<longrightarrow>
            (\<exists>r0 w0. call env m d retries retryDelay w = Some (r0, w0))"
    unfolding eq
    using retryLoop_returns [of w env m pd retryDelay retries "(Num 0, Num 0, Num 0)"]
    by blast
  have down: "(\<forall>k. chainCall env k pd = Inl err0) \<and> hasCapacity (limiter w) \<longrightarrow>
            (\<exists>l. hasCapacity l
               \<and> call env m d retries retryDelay w
                   = Some (Inl err0,
                           w\<lparr>limiter := l,
                              chainCalls := chainCalls w + retries,
                              attempts := attempts w + retries,
                              delays := delays w @ replicate (retries - 1) retryDelay,
                              caught := caught w @ replicate retries err0\<rparr>))"
  proof (intro impI, elim conjE)
    assume c: "\<forall>k. chainCall env k pd = Inl err0" and cap: "hasCapacity (limiter w)"
    obtain n where n: "retries = Suc n" using assms(1) by (cases retries) auto
    have e2: "call env m d retries retryDelay w
                = retryLoop env m pd retryDelay (Suc n) (Num 0, Num 0, Num 0) w"
      using eq n by (simp del: retryLoop.simps)
    from retryLoop_chain_down [OF c cap, of m retryDelay n "(Num 0, Num 0, Num 0)"]
    obtain l where cap': "hasCapacity l"
      and r: "retryLoop env m pd retryDelay (Suc n) (Num 0, Num 0, Num 0) w
               = Some (Inl err0,
                       w\<lparr>limiter := l,
                          chainCalls := chainCalls w + Suc n,
                          attempts := attempts w + Suc n,
                          delays := delays w @ replicate n retryDelay,
                          caught := caught w @ replicate (Suc n) err0\<rparr>)"
      by blast
    have "call env m d retries retryDelay w
                   = Some (Inl err0,
                           w\<lparr>limiter := l,
                              chainCalls := chainCalls w + retries,
                              attempts := attempts w + retries,
                              delays := delays w @ replicate (retries - 1) retryDelay,
                              caught := caught w @ replicate retries err0\<rparr>)"
      by (simp only: e2 r) (simp add: n)
    with cap' show "\<exists>l. hasCapacity l
               \<and> call env m d retries retryDelay w
                   = Some (Inl err0,
                           w\<lparr>limiter := l,
                              chainCalls := chainCalls w + retries,
                              attempts := attempts w + retries,
                              delays := delays w @ replicate (retries - 1) retryDelay,
                              caught := caught w @ replicate retries err0\<rparr>)"
      by blast
  qed
  show ?thesis
    using eq count live down by (simp add: Let_def)
qed

theorem call_retry_attempts_witness:
  "(1::nat) \<le> 2 \<and> (1::nat) \<le> 3 \<and> \<not> dryrun exData
   \<and> \<not> jsLt (jsSub (toNumber (maxTokens exModel))
             (natNum (countTokens exEnvDown
                \<lparr>inputData = exData, remainingTokenCount = None, tokenCount = None\<rparr>)))
             (Num 0)
   \<and> \<not> jsLt (jsSub (toNumber (maxTokens exModel))
             (natNum (countTokens exEnv
                \<lparr>inputData = exData, remainingTokenCount = None, tokenCount = None\<rparr>)))
             (Num 0)
   \<and> call exEnvDown exModel exData 2 1000 (exWorld :: unit world) =
       Some (Inl (Thrown ''down''),
             \<lparr>limiter =
                \<lparr>requestLimiter = \<lparr>reservoir = Num 8, reservoirRefreshAmount = Num 10\<rparr>,
                 tokenLimiter = \<lparr>reservoir = Num 98, reservoirRefreshAmount = Num 100\<rparr>\<rparr>,
              chainCalls = 2, fixCalls = 0, attempts = 2, delays = [1000],
              caught = [Thrown ''down'', Thrown ''down''], consoleLog = [],
              progressCalls = []\<rparr>)
   \<and> call exEnv exModel exData 3 1000 (exWorld :: unit world) =
       Some (Inr (Some \<lparr>response = Some (JString ''ok''), tokensSent = Num 2,
                        tokensReceived = Num 5, cost = Num 19\<rparr>),
             \<lparr>limiter =
                \<lparr>requestLimiter = \<lparr>reservoir = Num 7, reservoirRefreshAmount = Num 10\<rparr>,
                 tokenLimiter = \<lparr>reservoir = Num 90, reservoirRefreshAmount = Num 100\<rparr>\<rparr>,
              chainCalls = 2, fixCalls = 1, attempts = 2, delays = [1000],
              caught = [Thrown ''fix''], consoleLog = [], progressCalls = []\<rparr>)
   \<and> call exEnv exModel exData 3 1000 exWorldShut = None
   \<and> (\<forall>k. chainCall exEnvDown k exPromptData = Inl (Thrown ''down''))
   \<and> hasCapacity (limiter (exWorld :: unit world))
   \<and> (\<exists>l. hasCapacity l
         \<and> call exEnvDown exModel exData 2 1000 (exWorld :: unit world)
             = Some (Inl (Thrown ''down''),
                     exWorld\<lparr>limiter := l,
                             chainCalls := chainCalls (exWorld :: unit world) + 2,
                             attempts := attempts (exWorld :: unit world) + 2,
                             delays := delays (exWorld :: unit world) @ replicate (2 - 1) 1000,
                             caught := caught (exWorld :: unit world)
                                        @ replicate 2 (Thrown ''down'')\<rparr>))"
proof -
  let ?acc = "(Num 0, Num 0, Num 0) :: counters"
  let ?down = "Thrown ''down''"
  have h1: "(1::nat) \<le> 2" and h1': "(1::nat) \<le> 3" by simp_all
  have h2: "\<not> dryrun exData" by (simp add: exData_def)
  have h3: "\<not> jsLt (jsSub (toNumber (maxTokens exModel))
             (natNum (countTokens exEnvDown
                \<lparr>inputData = exData, remainingTokenCount = None, tokenCount = None\<rparr>)))
             (Num 0)"
    by code_simp
  have h3': "\<not> jsLt (jsSub (toNumber (maxTokens exModel))
             (natNum (countTokens exEnv
                \<lparr>inputData = exData, remainingTokenCount = None, tokenCount = None\<rparr>)))
             (Num 0)"
    by code_simp
  have h4: "exPromptData = \<lparr>inputData = exData,
              remainingTokenCount = Some (jsSub (toNumber (maxTokens exModel))
                (natNum (countTokens exEnvDown
                   \<lparr>inputData = exData, remainingTokenCount = None, tokenCount = None\<rparr>))),
              tokenCount = Some (countTokens exEnvDown
                   \<lparr>inputData = exData, remainingTokenCount = None, tokenCount = None\<rparr>)\<rparr>"
    by code_simp
  have h4': "exPromptData = \<lparr>inputData = exData,
              remainingTokenCount = Some (jsSub (toNumber (maxTokens exModel))
                (natNum (countTokens exEnv
                   \<lparr>inputData = exData, remainingTokenCount = None, tokenCount = None\<rparr>))),
              tokenCount = Some (countTokens exEnv
                   \<lparr>inputData = exData, remainingTokenCount = None, tokenCount = None\<rparr>)\<rparr>"
    by code_simp
  note down = call_retry_attempts [OF h1 h2 h3 h4, where retryDelay = 1000]
  note bad = call_retry_attempts [OF h1' h2 h3' h4', where retryDelay = 1000]

  txt \<open>The chain is down: two failed cycles, one sleep between them, the last error thrown.\<close>
  let ?v1 = "\<lparr>limiter =
                \<lparr>requestLimiter = \<lparr>reservoir = Num 9, reservoirRefreshAmount = Num 10\<rparr>,
                 tokenLimiter = \<lparr>reservoir = Num 99, reservoirRefreshAmount = Num 100\<rparr>\<rparr>,
              chainCalls = 1, fixCalls = 0, attempts = 1, delays = [],
              caught = [], consoleLog = [], progressCalls = []\<rparr> :: unit world"
  let ?v2 = "?v1\<lparr>caught := caught ?v1 @ [?down], delays := delays ?v1 @ [1000]\<rparr>"
  let ?v3 = "\<lparr>limiter =
                \<lparr>requestLimiter = \<lparr>reservoir = Num 8, reservoirRefreshAmount = Num 10\<rparr>,
                 tokenLimiter = \<lparr>reservoir = Num 98, reservoirRefreshAmount = Num 100\<rparr>\<rparr>,
              chainCalls = 2, fixCalls = 0, attempts = 2, delays = [1000],
              caught = [?down], consoleLog = [], progressCalls = []\<rparr> :: unit world"
  have p1: "process (callTask exEnvDown exModel exPromptData ?acc)
              ((exWorld :: unit world)\<lparr>attempts := Suc (attempts (exWorld :: unit world))\<rparr>)
            = Some (Inl (?down, ?acc), ?v1)"
    by code_simp
  have p2: "process (callTask exEnvDown exModel exPromptData ?acc)
              (?v2\<lparr>attempts := Suc (attempts ?v2)\<rparr>)
            = Some (Inl (?down, ?acc), ?v3)"
    by code_simp
  have "call exEnvDown exModel exData 2 1000 (exWorld :: unit world)
          = retryLoop exEnvDown exModel exPromptData 1000 (Suc (Suc 0)) ?acc exWorld"
    using down [where w = "exWorld :: unit world", THEN conjunct1] by (simp add: numeral_2_eq_2)
  also have "\<dots> = retryLoop exEnvDown exModel exPromptData 1000 (Suc 0) ?acc ?v2"
    using down [where v = "exWorld :: unit world" and n = "Suc 0" and acc = ?acc
                  and err = ?down and acc' = ?acc and ?v1.0 = ?v1,
                THEN conjunct2, THEN conjunct2, THEN conjunct2, THEN conjunct1] p1
    by (simp del: retryLoop.simps)
  also have "\<dots> = Some (Inl ?down, ?v3\<lparr>caught := caught ?v3 @ [?down]\<rparr>)"
    using down [where v = ?v2 and n = 0 and acc = ?acc
                  and err = ?down and acc' = ?acc and ?v1.0 = ?v3,
                THEN conjunct2, THEN conjunct2, THEN conjunct2, THEN conjunct1] p2
    by (simp del: retryLoop.simps)
  finally have c1: "call exEnvDown exModel exData 2 1000 (exWorld :: unit world)
          = Some (Inl ?down, ?v3\<lparr>caught := caught ?v3 @ [?down]\<rparr>)" .

  txt \<open>The first completion fails both parsers, the second validates.\<close>
  let ?fix = "Thrown ''fix''"
  let ?acc1 = "(Num 1, Num 3, Num 7) :: counters"
  let ?u1 = "\<lparr>limiter =
                \<lparr>requestLimiter = \<lparr>reservoir = Num 8, reservoirRefreshAmount = Num 10\<rparr>,
                 tokenLimiter = \<lparr>reservoir = Num 98, reservoirRefreshAmount = Num 100\<rparr>\<rparr>,
              chainCalls = 1, fixCalls = 1, attempts = 1, delays = [],
              caught = [], consoleLog = [], progressCalls = []\<rparr> :: unit world"
  let ?u2 = "?u1\<lparr>caught := caught ?u1 @ [?fix], delays := delays ?u1 @ [1000]\<rparr>"
  let ?u3 = "\<lparr>limiter =
                \<lparr>requestLimiter = \<lparr>reservoir = Num 7, reservoirRefreshAmount = Num 10\<rparr>,
                 tokenLimiter = \<lparr>reservoir = Num 90, reservoirRefreshAmount = Num 100\<rparr>\<rparr>,
              chainCalls = 2, fixCalls = 1, attempts = 2, delays = [1000],
              caught = [?fix], consoleLog = [], progressCalls = []\<rparr> :: unit world"
  let ?res = "\<lparr>response = Some (JString ''ok''), tokensSent = Num 2,
               tokensReceived = Num 5, cost = Num 19\<rparr>"
  have q1: "process (callTask exEnv exModel exPromptData ?acc)
              ((exWorld :: unit world)\<lparr>attempts := Suc (attempts (exWorld :: unit world))\<rparr>)
            = Some (Inl (?fix, ?acc1), ?u1)"
    by code_simp
  have q2: "process (callTask exEnv exModel exPromptData ?acc1)
              (?u2\<lparr>attempts := Suc (attempts ?u2)\<rparr>)
            = Some (Inr ?res, ?u3)"
    by code_simp
  have "call exEnv exModel exData 3 1000 (exWorld :: unit world)
          = retryLoop exEnv exModel exPromptData 1000 (Suc (Suc (Suc 0))) ?acc exWorld"
    using bad [where w = "exWorld :: unit world", THEN conjunct1] by (simp add: numeral_3_eq_3)
  also have "\<dots> = retryLoop exEnv exModel exPromptData 1000 (Suc (Suc 0)) ?acc1 ?u2"
    using bad [where v = "exWorld :: unit world" and n = "Suc (Suc 0)" and acc = ?acc
                 and err = ?fix and acc' = ?acc1 and ?v1.0 = ?u1,
               THEN conjunct2, THEN conjunct2, THEN conjunct2, THEN conjunct1] q1
    by (simp del: retryLoop.simps)
  also have "\<dots> = Some (Inr (Some ?res), ?u3)"
    using bad [where v = ?u2 and n = "Suc 0" and acc = ?acc1 and res = ?res
                 and ?v1.0 = ?u3, THEN conjunct2, THEN conjunct2, THEN conjunct1] q2
    by (simp del: retryLoop.simps)
  finally have c2: "call exEnv exModel exData 3 1000 (exWorld :: unit world)
          = Some (Inr (Some ?res), ?u3)" .

  txt \<open>A request reservoir that is never refilled: the cycle is suspended, and the call.\<close>
  have s1: "process (callTask exEnv exModel exPromptData ?acc)
              (exWorldShut\<lparr>attempts := Suc (attempts exWorldShut)\<rparr>) = None"
    by code_simp
  have "call exEnv exModel exData 3 1000 exWorldShut
          = retryLoop exEnv exModel exPromptData 1000 (Suc (Suc (Suc 0))) ?acc exWorldShut"
    using bad [where w = exWorldShut, THEN conjunct1] by (simp add: numeral_3_eq_3)
  also have "\<dots> = None"
    using bad [where v = exWorldShut and n = "Suc (Suc 0)" and acc = ?acc,
               THEN conjunct2, THEN conjunct1] s1
    by (simp del: retryLoop.simps)
  finally have c3: "call exEnv exModel exData 3 1000 exWorldShut = None" .

  txt \<open>The chain is down at every invocation.\<close>
  have h5: "\<forall>k. chainCall exEnvDown k exPromptData = Inl ?down"
    by (simp add: exEnvDown_def)
  have h6: "hasCapacity (limiter (exWorld :: unit world))"
    by (simp add: exWorld_def exLimiter_def hasCapacity_def)
  have c4: "\<exists>l. hasCapacity l
         \<and> call exEnvDown exModel exData 2 1000 (exWorld :: unit world)
             = Some (Inl ?down,
                     exWorld\<lparr>limiter := l,
                             chainCalls := chainCalls (exWorld :: unit world) + 2,
                             attempts := attempts (exWorld :: unit world) + 2,
                             delays := delays (exWorld :: unit world) @ replicate (2 - 1) 1000,
                             caught := caught (exWorld :: unit world) @ replicate 2 ?down\<rparr>)"
    using call_retry_attempts
            [OF h1 h2 h3 h4, where retryDelay = 1000 and w = "exWorld :: unit world"
               and err0 = ?down,
             THEN conjunct2, THEN conjunct2, THEN conjunct2, THEN conjunct2, THEN conjunct2,
             THEN conjunct1]
          h5 h6
    by blast
  show ?thesis
    using h1 h1' h2 h3 h3' c1 c2 c3 h5 h6 c4 by simp
qed

section \<open>Admission and the debit of the token reservoir\<close>

lemma tokensUsedOf_last:
  "tokensUsedOf reports = (if reports = [] then Num 0 else fst (last reports))"
  by (induction reports rule: rev_induct) (simp_all add: tokensUsedOf_def reportTokens_def)

lemma admit_cases:
  "admit l =
     (if jsLe (Num 1) (reservoir (requestLimiter l)) then
        (if jsLe (Num 1) (reservoir (tokenLimiter l)) then
           Some \<lparr>requestLimiter = (requestLimiter l)
                   \<lparr>reservoir := jsSub (reservoir (requestLimiter l)) (Num 1)\<rparr>,
                 tokenLimiter = (tokenLimiter l)
                   \<lparr>reservoir := jsSub (reservoir (tokenLimiter l)) (Num 1)\<rparr>\<rparr>
         else if jsLe (Num 1) (reservoirRefreshAmount (tokenLimiter l)) then
           Some \<lparr>requestLimiter = (requestLimiter l)
                   \<lparr>reservoir := reservoirRefreshAmount (requestLimiter l)\<rparr>,
                 tokenLimiter = (tokenLimiter l)
                   \<lparr>reservoir := jsSub (reservoirRefreshAmount (tokenLimiter l)) (Num 1)\<rparr>\<rparr>
         else None)
      else if jsLe (Num 1) (reservoirRefreshAmount (requestLimiter l))
              \<and> jsLe (Num 1) (reservoirRefreshAmount (tokenLimiter l)) then
        Some \<lparr>requestLimiter = (requestLimiter l)
                \<lparr>reservoir := jsSub (reservoirRefreshAmount (requestLimiter l)) (Num 1)\<rparr>,
              tokenLimiter = (tokenLimiter l)
                \<lparr>reservoir := jsSub (reservoirRefreshAmount (tokenLimiter l)) (Num 1)\<rparr>\<rparr>
      else None)"
  by (simp add: admit_def schedule_def refill_def)

lemma admit_at_once:
  assumes "jsLe (Num 1) (reservoir (requestLimiter l))"
    and "jsLe (Num 1) (reservoir (tokenLimiter l))"
  shows "admit l =
           Some \<lparr>requestLimiter = (requestLimiter l)
                   \<lparr>reservoir := jsSub (reservoir (requestLimiter l)) (Num 1)\<rparr>,
                 tokenLimiter = (tokenLimiter l)
                   \<lparr>reservoir := jsSub (reservoir (tokenLimiter l)) (Num 1)\<rparr>\<rparr>"
  using assms by (simp add: admit_cases)

text \<open>
  Claim C9, as amended. \<open>RateLimiter.process\<close> returns or throws exactly when the
  limiter admits the job and the task, run in the limiter \<open>l\<close> that the admission
  leaves, returns or throws; it is suspended, and neither returns nor throws, exactly
  when the admission or the task is. When the task has returned, the token reservoir is lowered by the count the
  task reported: the first argument of its last call of \<open>reportTokens\<close>, \<open>0\<close> without a
  call, and any number with one, also above the \<open>1\<close> reserved. A task that throws is not
  debited, whatever it reported: the limiter is left as it was when the task threw, and
  the error is the one \<open>process\<close> throws. The admission takes \<open>1\<close> from each reservoir.
  With at least \<open>1\<close> in both it is immediate. With at least \<open>1\<close> in the request reservoir
  and less in the token reservoir the job waits for the next window, which resets both
  reservoirs, the request reservoir to its full refill amount. With less than \<open>1\<close> in
  the request reservoir the job waits for the next window and finds both reservoirs
  reset. A reservoir that is short and whose refill amount is below \<open>1\<close> suspends the
  job for ever.
\<close>

theorem process_admits_then_debits:
  "(process func w = Some (r, w') \<longleftrightarrow>
      (\<exists>l x reports w1.
          admit (limiter w) = Some l
        \<and> func (w\<lparr>limiter := l\<rparr>) = Some (x, reports, w1)
        \<and> (case x of
              Inl err \<Rightarrow> r = Inl err \<and> w' = w1
            | Inr res \<Rightarrow> r = Inr res
                \<and> w' = w1\<lparr>limiter := (limiter w1)\<lparr>tokenLimiter := (tokenLimiter (limiter w1))
                       \<lparr>reservoir := jsSub (reservoir (tokenLimiter (limiter w1)))
                                         (tokensUsedOf reports)\<rparr>\<rparr>\<rparr>)))
   \<and> (process func w = None \<longleftrightarrow>
        admit (limiter w) = None
      \<or> (\<exists>l. admit (limiter w) = Some l \<and> func (w\<lparr>limiter := l\<rparr>) = None))
   \<and> tokensUsedOf reports0 = (if reports0 = [] then Num 0 else fst (last reports0))
   \<and> admit l0 =
       (if jsLe (Num 1) (reservoir (requestLimiter l0)) then
          (if jsLe (Num 1) (reservoir (tokenLimiter l0)) then
             Some \<lparr>requestLimiter = (requestLimiter l0)
                     \<lparr>reservoir := jsSub (reservoir (requestLimiter l0)) (Num 1)\<rparr>,
                   tokenLimiter = (tokenLimiter l0)
                     \<lparr>reservoir := jsSub (reservoir (tokenLimiter l0)) (Num 1)\<rparr>\<rparr>
           else if jsLe (Num 1) (reservoirRefreshAmount (tokenLimiter l0)) then
             Some \<lparr>requestLimiter = (requestLimiter l0)
                     \<lparr>reservoir := reservoirRefreshAmount (requestLimiter l0)\<rparr>,
                   tokenLimiter = (tokenLimiter l0)
                     \<lparr>reservoir := jsSub (reservoirRefreshAmount (tokenLimiter l0)) (Num 1)\<rparr>\<rparr>
           else None)
        else if jsLe (Num 1) (reservoirRefreshAmount (requestLimiter l0))
                \<and> jsLe (Num 1) (reservoirRefreshAmount (tokenLimiter l0)) then
          Some \<lparr>requestLimiter = (requestLimiter l0)
                  \<lparr>reservoir := jsSub (reservoirRefreshAmount (requestLimiter l0)) (Num 1)\<rparr>,
                tokenLimiter = (tokenLimiter l0)
                  \<lparr>reservoir := jsSub (reservoirRefreshAmount (tokenLimiter l0)) (Num 1)\<rparr>\<rparr>
        else None)"
proof -
  have ret: "process func w = Some (r, w') \<longleftrightarrow>
      (\<exists>l x reports w1.
          admit (limiter w) = Some l
        \<and> func (w\<lparr>limiter := l\<rparr>) = Some (x, reports, w1)
        \<and> (case x of
              Inl err \<Rightarrow> r = Inl err \<and> w' = w1
            | Inr res \<Rightarrow> r = Inr res
                \<and> w' = w1\<lparr>limiter := (limiter w1)\<lparr>tokenLimiter := (tokenLimiter (limiter w1))
                       \<lparr>reservoir := jsSub (reservoir (tokenLimiter (limiter w1)))
                                         (tokensUsedOf reports)\<rparr>\<rparr>\<rparr>))"
  proof (cases "admit (limiter w)")
    case None
    then show ?thesis by (simp add: process_admit)
  next
    case (Some l)
    show ?thesis
    proof (cases "func (w\<lparr>limiter := l\<rparr>)")
      case None
      with Some show ?thesis by (simp add: process_admit)
    next
      case (Some y)
      obtain x reports w1 where y: "y = (x, reports, w1)" by (cases y) auto
      show ?thesis
        using \<open>admit (limiter w) = Some l\<close> Some y
        by (cases x) (auto simp: process_admit incrementReservoir_def jsSub_def)
    qed
  qed
  have susp: "process func w = None \<longleftrightarrow>
        admit (limiter w) = None
      \<or> (\<exists>l. admit (limiter w) = Some l \<and> func (w\<lparr>limiter := l\<rparr>) = None)"
    by (auto simp: process_admit split: option.splits sum.splits prod.splits)
  show ?thesis
    using ret susp tokensUsedOf_last [of reports0] admit_cases [of l0] by blast
qed

lemma process_exTask:
  "process exTask exWorld =
     Some (Inr ''done'',
           exWorld\<lparr>limiter :=
             \<lparr>requestLimiter = \<lparr>reservoir = Num 9, reservoirRefreshAmount = Num 10\<rparr>,
              tokenLimiter = \<lparr>reservoir = Num 57, reservoirRefreshAmount = Num 100\<rparr>\<rparr>\<rparr>)"
  by code_simp

theorem process_admits_then_debits_witness:
  "process exTask exWorld =
     Some (Inr ''done'',
           exWorld\<lparr>limiter :=
             \<lparr>requestLimiter = \<lparr>reservoir = Num 9, reservoirRefreshAmount = Num 10\<rparr>,
              tokenLimiter = \<lparr>reservoir = Num 57, reservoirRefreshAmount = Num 100\<rparr>\<rparr>\<rparr>)
   \<and> process exTask exWorldTokensShort =
     Some (Inr ''done'',
           exWorld\<lparr>limiter :=
             \<lparr>requestLimiter = \<lparr>reservoir = Num 10, reservoirRefreshAmount = Num 10\<rparr>,
              tokenLimiter = \<lparr>reservoir = Num 57, reservoirRefreshAmount = Num 100\<rparr>\<rparr>\<rparr>)
   \<and> process exTask exWorldRequestsShort =
     Some (Inr ''done'',
           exWorld\<lparr>limiter :=
             \<lparr>requestLimiter = \<lparr>reservoir = Num 9, reservoirRefreshAmount = Num 10\<rparr>,
              tokenLimiter = \<lparr>reservoir = Num 57, reservoirRefreshAmount = Num 100\<rparr>\<rparr>\<rparr>)
   \<and> process exTaskThrows exWorld =
     Some (Inl (Thrown ''boom''),
           exWorld\<lparr>limiter :=
             \<lparr>requestLimiter = \<lparr>reservoir = Num 9, reservoirRefreshAmount = Num 10\<rparr>,
              tokenLimiter = \<lparr>reservoir = Num 99, reservoirRefreshAmount = Num 100\<rparr>\<rparr>\<rparr>)
   \<and> process exTask exWorldShut = None
   \<and> tokensUsedOf [(Num 7, []), (Num 42, [])] = Num 42"
proof -
  let ?l = "\<lambda>a b. \<lparr>requestLimiter = \<lparr>reservoir = Num a, reservoirRefreshAmount = Num 10\<rparr>,
                    tokenLimiter = \<lparr>reservoir = Num b, reservoirRefreshAmount = Num 100\<rparr>\<rparr>"
  note t = process_admits_then_debits
  have a1: "admit (limiter (exWorld :: unit world)) = Some (?l 9 99)"
    using t [where ?l0.0 = "limiter (exWorld :: unit world)", THEN conjunct2, THEN conjunct2, THEN conjunct2]
    by (simp add: exWorld_def exLimiter_def jsLe_def jsSub_def)
  have a2: "admit (limiter exWorldTokensShort) = Some (?l 10 99)"
    using t [where ?l0.0 = "limiter exWorldTokensShort", THEN conjunct2, THEN conjunct2, THEN conjunct2]
    by (simp add: exWorldTokensShort_def exWorld_def jsLe_def jsSub_def)
  have a3: "admit (limiter exWorldRequestsShort) = Some (?l 9 99)"
    using t [where ?l0.0 = "limiter exWorldRequestsShort", THEN conjunct2, THEN conjunct2, THEN conjunct2]
    by (simp add: exWorldRequestsShort_def exWorld_def jsLe_def jsSub_def)
  have a4: "admit (limiter exWorldShut) = None"
    using t [where ?l0.0 = "limiter exWorldShut", THEN conjunct2, THEN conjunct2, THEN conjunct2]
    by (simp add: exWorldShut_def exWorld_def exLimiter_def jsLe_def jsSub_def)
  have u: "tokensUsedOf [(Num 7, []), (Num 42, [])] = Num 42"
    using t [where ?reports0.0 = "[(Num 7, []), (Num 42, [])]", THEN conjunct2, THEN conjunct2,
                 THEN conjunct1] by simp
  have u1: "tokensUsedOf [(Num 42, [])] = Num 42"
    using t [where ?reports0.0 = "[(Num 42, [])]", THEN conjunct2, THEN conjunct2,
                 THEN conjunct1] by simp
  have p1: "process exTask exWorld =
     Some (Inr ''done'', exWorld\<lparr>limiter := ?l 9 57\<rparr>)"
    using a1 u1
    by (intro t [where func = exTask and w = "exWorld :: unit world",
                 THEN conjunct1, THEN iffD2]
              exI [of _ "?l 9 99"] exI [of _ "Inr ''done''"] exI [of _ "[(Num 42, [])]"]
              exI [of _ "exWorld\<lparr>limiter := ?l 9 99\<rparr>"])
       (simp add: exTask_def exWorld_def jsSub_def)
  have p2: "process exTask exWorldTokensShort =
     Some (Inr ''done'', exWorld\<lparr>limiter := ?l 10 57\<rparr>)"
    using a2 u1
    by (intro t [where func = exTask and w = exWorldTokensShort,
                 THEN conjunct1, THEN iffD2]
              exI [of _ "?l 10 99"] exI [of _ "Inr ''done''"] exI [of _ "[(Num 42, [])]"]
              exI [of _ "exWorld\<lparr>limiter := ?l 10 99\<rparr>"])
       (simp add: exTask_def exWorldTokensShort_def exWorld_def jsSub_def)
  have p3: "process exTask exWorldRequestsShort =
     Some (Inr ''done'', exWorld\<lparr>limiter := ?l 9 57\<rparr>)"
    using a3 u1
    by (intro t [where func = exTask and w = exWorldRequestsShort,
                 THEN conjunct1, THEN iffD2]
              exI [of _ "?l 9 99"] exI [of _ "Inr ''done''"] exI [of _ "[(Num 42, [])]"]
              exI [of _ "exWorld\<lparr>limiter := ?l 9 99\<rparr>"])
       (simp add: exTask_def exWorldRequestsShort_def exWorld_def jsSub_def)
  have p4: "process exTaskThrows exWorld =
     Some (Inl (Thrown ''boom''), exWorld\<lparr>limiter := ?l 9 99\<rparr>)"
    using a1
    by (intro t [where func = exTaskThrows and w = "exWorld :: unit world",
                 THEN conjunct1, THEN iffD2]
              exI [of _ "?l 9 99"] exI [of _ "Inl (Thrown ''boom'')"]
              exI [of _ "[(Num 42, [])]"] exI [of _ "exWorld\<lparr>limiter := ?l 9 99\<rparr>"])
       (simp add: exTaskThrows_def exWorld_def)
  have p5: "process exTask exWorldShut = None"
    using a4 t [where func = exTask and w = exWorldShut, THEN conjunct2, THEN conjunct1]
    by simp
  show ?thesis
    using p1 p2 p3 p4 p5 u by simp
qed

text \<open>
  Claim C9 as stated fails on a task that reports 42 tokens and then throws: the token
  reservoir, at \<open>100\<close> before and \<open>99\<close> once the job is admitted, is left at \<open>99\<close>.
\<close>

theorem process_throw_counterexample:
  "process exTaskThrows exWorld
     = Some (Inl (Thrown ''boom''),
             \<lparr>limiter =
                \<lparr>requestLimiter = \<lparr>reservoir = Num 9, reservoirRefreshAmount = Num 10\<rparr>,
                 tokenLimiter = \<lparr>reservoir = Num 99, reservoirRefreshAmount = Num 100\<rparr>\<rparr>,
              chainCalls = 0, fixCalls = 0, attempts = 0, delays = [], caught = [],
              consoleLog = [], progressCalls = []\<rparr>)
   \<and> tokensUsedOf [(Num 42, [])] = Num 42"
  by code_simp

section \<open>The parser and its fixing pass\<close>

lemma parse_direct:
  "parserParse env text = Inr d \<Longrightarrow>
     parse env pm text P w =
       Some (Inr \<lparr>data = d, fixTokensSent = None, fixTokensReceived = None, fixCost = None,
                  parserFixed = False\<rparr>, w)"
  by (simp add: parse_def)

lemma parse_fixed:
  assumes "parserParse env text = Inl e" and "fixingParse env (fixCalls w) text = Inr d"
    and "admit (limiter w) = Some l"
  shows "parse env pm text P w =
     Some (Inr \<lparr>data = d,
                fixTokensSent = Some (jsRound (jsMul P (Num (11 / 10)))),
                fixTokensReceived = Some (natNum (textTokens env (stringify env d))),
                fixCost = Some (calculateCost pm (jsRound (jsMul P (Num (11 / 10))))
                                  (natNum (textTokens env (stringify env d)))),
                parserFixed = True\<rparr>,
           w\<lparr>limiter := l\<lparr>tokenLimiter := (tokenLimiter l)
                           \<lparr>reservoir := jsSub (reservoir (tokenLimiter l))
                                             (jsRound (jsMul P (Num (11 / 10))))\<rparr>\<rparr>,
              fixCalls := Suc (fixCalls w)\<rparr>)"
  using assms
  by (simp add: parse_def process_admit fixTask_def Let_def tokensUsedOf_def
                reportTokens_def incrementReservoir_def jsSub_def)

lemma parse_fix_throws:
  assumes "parserParse env text = Inl e" and "fixingParse env (fixCalls w) text = Inl err"
    and "admit (limiter w) = Some l"
  shows "parse env pm text P w = Some (Inl err, w\<lparr>limiter := l, fixCalls := Suc (fixCalls w)\<rparr>)"
  using assms by (simp add: parse_def process_admit fixTask_def Let_def)

lemma parse_suspended:
  assumes "parserParse env text = Inl e" and "admit (limiter w) = None"
  shows "parse env pm text P w = None"
  using assms by (simp add: parse_def process_admit)

lemma round_eleven_tenths:
  "jsRound (jsMul (natNum p) (Num (11 / 10))) = natNum ((11 * p + 5) div 10)"
proof -
  have "(of_nat p :: rat) * (11 / 10) + 1 / 2 = of_nat (11 * p + 5) / of_nat 10"
    by (simp add: field_simps)
  then have "\<lfloor>(of_nat p :: rat) * (11 / 10) + 1 / 2\<rfloor> = int ((11 * p + 5) div 10)"
    by (simp only: floor_divide_of_nat_eq)
  then show ?thesis by (simp add: natNum_def)
qed

lemma calculateCost_parserModel: "calculateCost (parserModel name) s r = NaN"
  by (simp add: calculateCost_def parserModel_def)

text \<open>
  Claim C10, as amended. Take a text that fails validation, so that \<open>JSONParser.parse\<close>
  takes the fixing pass, and let \<open>l\<close> be the limiter that the admission of the pass
  leaves: \<open>1\<close> is taken from each reservoir, at once when both hold at least \<open>1\<close>, and
  otherwise after the wait for the next window. While the limiter does not admit the
  pass, the parse is suspended. When the fixing parser returns a value, the token
  reservoir of \<open>l\<close> is lowered by \<open>Math.round(promptTokens * 1.10)\<close>, the estimate of the
  tokens sent, and by nothing else: the count of the tokens received, which the result
  carries, is the second argument of \<open>reportTokens\<close> and is dropped. When the fixing
  parser throws, the parse throws its error and nothing is debited: the limiter is left
  as the admission left it.
\<close>

theorem parse_fix_debits_sent_estimate:
  assumes "parserParse env text = Inl e"
  shows "(admit (limiter w) = None \<longrightarrow> parse env pm text P w = None)
       \<and> (admit (limiter w) = Some l \<and> fixingParse env (fixCalls w) text = Inr d \<longrightarrow>
            parse env pm text P w =
              Some (Inr \<lparr>data = d,
                         fixTokensSent = Some (jsRound (jsMul P (Num (11 / 10)))),
                         fixTokensReceived = Some (natNum (textTokens env (stringify env d))),
                         fixCost = Some (calculateCost pm (jsRound (jsMul P (Num (11 / 10))))
                                           (natNum (textTokens env (stringify env d)))),
                         parserFixed = True\<rparr>,
                    w\<lparr>limiter := l\<lparr>tokenLimiter := (tokenLimiter l)
                                    \<lparr>reservoir := jsSub (reservoir (tokenLimiter l))
                                                      (jsRound (jsMul P (Num (11 / 10))))\<rparr>\<rparr>,
                       fixCalls := Suc (fixCalls w)\<rparr>)
          \<and> tokensUsedOf [(jsRound (jsMul P (Num (11 / 10))),
                            [natNum (textTokens env (stringify env d))])]
              = jsRound (jsMul P (Num (11 / 10))))
       \<and> (admit (limiter w) = Some l \<and> fixingParse env (fixCalls w) text = Inl err \<longrightarrow>
            parse env pm text P w
              = Some (Inl err, w\<lparr>limiter := l, fixCalls := Suc (fixCalls w)\<rparr>))
       \<and> (jsLe (Num 1) (reservoir (requestLimiter (limiter w)))
          \<and> jsLe (Num 1) (reservoir (tokenLimiter (limiter w))) \<longrightarrow>
            admit (limiter w) =
              Some \<lparr>requestLimiter = (requestLimiter (limiter w))
                      \<lparr>reservoir := jsSub (reservoir (requestLimiter (limiter w))) (Num 1)\<rparr>,
                    tokenLimiter = (tokenLimiter (limiter w))
                      \<lparr>reservoir := jsSub (reservoir (tokenLimiter (limiter w))) (Num 1)\<rparr>\<rparr>)"
  using parse_suspended [OF assms, of w pm P]
        parse_fixed [OF assms, of w d l pm P]
        parse_fix_throws [OF assms, of w err l pm P]
        admit_at_once [of "limiter w"]
  by (simp add: tokensUsedOf_def reportTokens_def)

theorem parse_fix_debits_sent_estimate_witness:
  "parserParse exEnvFix ''bad'' = Inl (Thrown ''parse'')
   \<and> parse exEnvFix (parserModel ''gpt-4'') ''bad'' (natNum 10) (exWorld :: unit world) =
       Some (Inr \<lparr>data = JString ''fixed'', fixTokensSent = Some (Num 11),
                  fixTokensReceived = Some (Num 1), fixCost = Some NaN, parserFixed = True\<rparr>,
             exWorld\<lparr>limiter :=
               \<lparr>requestLimiter = \<lparr>reservoir = Num 9, reservoirRefreshAmount = Num 10\<rparr>,
                tokenLimiter = \<lparr>reservoir = Num 88, reservoirRefreshAmount = Num 100\<rparr>\<rparr>,
               fixCalls := 1\<rparr>)
   \<and> parse exEnvFix (parserModel ''gpt-4'') ''bad'' (natNum 10) exWorldTokensShort =
       Some (Inr \<lparr>data = JString ''fixed'', fixTokensSent = Some (Num 11),
                  fixTokensReceived = Some (Num 1), fixCost = Some NaN, parserFixed = True\<rparr>,
             exWorld\<lparr>limiter :=
               \<lparr>requestLimiter = \<lparr>reservoir = Num 10, reservoirRefreshAmount = Num 10\<rparr>,
                tokenLimiter = \<lparr>reservoir = Num 88, reservoirRefreshAmount = Num 100\<rparr>\<rparr>,
               fixCalls := 1\<rparr>)
   \<and> parserParse exEnv ''bad'' = Inl (Thrown ''parse'')
   \<and> parse exEnv (parserModel ''gpt-4'') ''bad'' (natNum 10) (exWorld :: unit world) =
       Some (Inl (Thrown ''fix''),
             exWorld\<lparr>limiter :=
               \<lparr>requestLimiter = \<lparr>reservoir = Num 9, reservoirRefreshAmount = Num 10\<rparr>,
                tokenLimiter = \<lparr>reservoir = Num 99, reservoirRefreshAmount = Num 100\<rparr>\<rparr>,
               fixCalls := 1\<rparr>)
   \<and> parse exEnvFix (parserModel ''gpt-4'') ''bad'' (natNum 10) exWorldShut = None"
proof -
  let ?l = "\<lambda>a b. \<lparr>requestLimiter = \<lparr>reservoir = Num a, reservoirRefreshAmount = Num 10\<rparr>,
                    tokenLimiter = \<lparr>reservoir = Num b, reservoirRefreshAmount = Num 100\<rparr>\<rparr>"
  let ?pm = "parserModel ''gpt-4''"
  have h1: "parserParse exEnvFix ''bad'' = Inl (Thrown ''parse'')"
    by (simp add: exEnvFix_def exEnv_def)
  have h1': "parserParse exEnv ''bad'' = Inl (Thrown ''parse'')"
    by (simp add: exEnv_def)
  have f: "fixingParse exEnvFix (fixCalls (exWorld :: unit world)) ''bad'' = Inr (JString ''fixed'')"
    "fixingParse exEnvFix (fixCalls exWorldTokensShort) ''bad'' = Inr (JString ''fixed'')"
    by (simp_all add: exEnvFix_def exEnv_def)
  have f': "fixingParse exEnv (fixCalls (exWorld :: unit world)) ''bad'' = Inl (Thrown ''fix'')"
    by (simp add: exEnv_def)
  have s: "textTokens exEnvFix (stringify exEnvFix (JString ''fixed'')) = 1"
    by (simp add: exEnvFix_def exEnv_def)
  have r: "jsRound (jsMul (natNum 10) (Num (11 / 10))) = Num 11"
    using round_eleven_tenths [of 10] by (simp add: natNum_def)
  note t = parse_fix_debits_sent_estimate [OF h1, where pm = ?pm and P = "natNum 10"]
  note t' = parse_fix_debits_sent_estimate [OF h1', where pm = ?pm and P = "natNum 10"]
  have a1: "admit (limiter (exWorld :: unit world)) = Some (?l 9 99)"
    using t [where w = "exWorld :: unit world", THEN conjunct2, THEN conjunct2, THEN conjunct2]
    by (simp add: exWorld_def exLimiter_def jsLe_def jsSub_def)
  have a2: "admit (limiter exWorldTokensShort) = Some (?l 10 99)" by code_simp
  have a3: "admit (limiter exWorldShut) = None" by code_simp
  have p1: "parse exEnvFix ?pm ''bad'' (natNum 10) (exWorld :: unit world) =
       Some (Inr \<lparr>data = JString ''fixed'', fixTokensSent = Some (Num 11),
                  fixTokensReceived = Some (Num 1), fixCost = Some NaN, parserFixed = True\<rparr>,
             exWorld\<lparr>limiter := ?l 9 88, fixCalls := 1\<rparr>)"
    using t [where w = "exWorld :: unit world" and l = "?l 9 99" and d = "JString ''fixed''",
             THEN conjunct2, THEN conjunct1] a1 f(1) r
    by (simp add: s calculateCost_parserModel natNum_def jsSub_def exWorld_def)
  have p2: "parse exEnvFix ?pm ''bad'' (natNum 10) exWorldTokensShort =
       Some (Inr \<lparr>data = JString ''fixed'', fixTokensSent = Some (Num 11),
                  fixTokensReceived = Some (Num 1), fixCost = Some NaN, parserFixed = True\<rparr>,
             exWorld\<lparr>limiter := ?l 10 88, fixCalls := 1\<rparr>)"
    using t [where w = exWorldTokensShort and l = "?l 10 99" and d = "JString ''fixed''",
             THEN conjunct2, THEN conjunct1] a2 f(2) r
    by (simp add: s calculateCost_parserModel natNum_def jsSub_def exWorld_def
                  exWorldTokensShort_def)
  have p3: "parse exEnv ?pm ''bad'' (natNum 10) (exWorld :: unit world) =
       Some (Inl (Thrown ''fix''), exWorld\<lparr>limiter := ?l 9 99, fixCalls := 1\<rparr>)"
    using t' [where w = "exWorld :: unit world" and l = "?l 9 99" and err = "Thrown ''fix''",
              THEN conjunct2, THEN conjunct2, THEN conjunct1] a1 f'
    by (simp add: exWorld_def)
  have p4: "parse exEnvFix ?pm ''bad'' (natNum 10) exWorldShut = None"
    using t [where w = exWorldShut, THEN conjunct1] a3 by simp
  show ?thesis
    using h1 h1' p1 p2 p3 p4 by simp
qed

text \<open>
  Claim C10 as stated fails on a fixing pass whose fixing parser throws: for a prompt of
  ten tokens the estimate is \<open>11\<close>, and the token reservoir, at \<open>100\<close> before the pass,
  is left at \<open>99\<close>.
\<close>

theorem parse_fix_throws_counterexample:
  "parse exEnv (parserModel ''gpt-4'') ''bad'' (natNum 10) (exWorld :: unit world) =
     Some (Inl (Thrown ''fix''),
           \<lparr>limiter =
              \<lparr>requestLimiter = \<lparr>reservoir = Num 9, reservoirRefreshAmount = Num 10\<rparr>,
               tokenLimiter = \<lparr>reservoir = Num 99, reservoirRefreshAmount = Num 100\<rparr>\<rparr>,
            chainCalls = 0, fixCalls = 1, attempts = 0, delays = [],
            caught = [], consoleLog = [], progressCalls = []\<rparr>)
   \<and> jsRound (jsMul (natNum 10) (Num (11 / 10))) = Num 11"
  by code_simp

text \<open>
  Claim C4, as amended. A text that validates is returned coerced, not marked as fixed,
  with no token or cost entry, and the world is untouched: the fixing parser was not
  invoked. A text that fails validation and that the fixing parser coerces is returned,
  once the limiter admits the pass, marked as fixed, with the three entries present: the tokens sent are
  \<open>Math.round(promptTokens * 1.10)\<close>, that is \<open>(11 p + 5) div 10\<close> for a count \<open>p\<close>, at least
  \<open>1\<close> when \<open>p\<close> is; the tokens received are the token count of the JSON text of the
  value; the cost is what the parser's model computes from the two.
\<close>

theorem parse_direct_or_fixed:
  "(parserParse env text = Inr d \<longrightarrow>
      parse env pm text (natNum p) w =
        Some (Inr \<lparr>data = d, fixTokensSent = None, fixTokensReceived = None, fixCost = None,
                   parserFixed = False\<rparr>, w))
   \<and> (parserParse env text = Inl e \<and> fixingParse env (fixCalls w) text = Inr d
        \<and> admits (limiter w) \<longrightarrow>
      (\<exists>w'. parse env pm text (natNum p) w =
          Some (Inr \<lparr>data = d,
                     fixTokensSent = Some (natNum ((11 * p + 5) div 10)),
                     fixTokensReceived = Some (natNum (textTokens env (stringify env d))),
                     fixCost = Some (calculateCost pm (natNum ((11 * p + 5) div 10))
                                       (natNum (textTokens env (stringify env d)))),
                     parserFixed = True\<rparr>, w')
          \<and> fixCalls w' = Suc (fixCalls w))
      \<and> (1 \<le> p \<longrightarrow> 1 \<le> (11 * p + 5) div 10))"
proof (intro conjI impI)
  assume "parserParse env text = Inr d"
  then show "parse env pm text (natNum p) w =
        Some (Inr \<lparr>data = d, fixTokensSent = None, fixTokensReceived = None, fixCost = None,
                   parserFixed = False\<rparr>, w)"
    by (rule parse_direct)
next
  assume a: "parserParse env text = Inl e \<and> fixingParse env (fixCalls w) text = Inr d
        \<and> admits (limiter w)"
  then have h: "parserParse env text = Inl e" "fixingParse env (fixCalls w) text = Inr d"
    by simp_all
  from a obtain l where "admit (limiter w) = Some l" by (auto simp: admits_def)
  from parse_fixed [OF h this, of pm "natNum p"]
  show "\<exists>w'. parse env pm text (natNum p) w =
          Some (Inr \<lparr>data = d,
                     fixTokensSent = Some (natNum ((11 * p + 5) div 10)),
                     fixTokensReceived = Some (natNum (textTokens env (stringify env d))),
                     fixCost = Some (calculateCost pm (natNum ((11 * p + 5) div 10))
                                       (natNum (textTokens env (stringify env d)))),
                     parserFixed = True\<rparr>, w')
          \<and> fixCalls w' = Suc (fixCalls w)"
    by (simp add: round_eleven_tenths)
next
  assume "1 \<le> p"
  then show "1 \<le> (11 * p + 5) div 10" by arith
qed


theorem parse_direct_or_fixed_witness:
  "parserParse exEnvFix ''ok'' = Inr (JString ''ok'')
   \<and> parse exEnvFix (parserModel ''gpt-4'') ''ok'' (natNum 10) (exWorld :: unit world) =
        Some (Inr \<lparr>data = JString ''ok'', fixTokensSent = None, fixTokensReceived = None,
                   fixCost = None, parserFixed = False\<rparr>, exWorld)
   \<and> parserParse exEnvFix ''bad'' = Inl (Thrown ''parse'')
   \<and> fixingParse exEnvFix (fixCalls (exWorld :: unit world)) ''bad'' = Inr (JString ''fixed'')
   \<and> admits (limiter (exWorld :: unit world))
   \<and> (\<exists>w'. parse exEnvFix (parserModel ''gpt-4'') ''bad'' (natNum 10) (exWorld :: unit world) =
          Some (Inr \<lparr>data = JString ''fixed'',
                     fixTokensSent = Some (natNum 11),
                     fixTokensReceived = Some (natNum 1),
                     fixCost = Some NaN,
                     parserFixed = True\<rparr>, w')
          \<and> fixCalls w' = Suc (fixCalls (exWorld :: unit world)))
   \<and> (1::nat) \<le> 10 \<and> (1::nat) \<le> (11 * 10 + 5) div 10"
proof -
  have h1: "parserParse exEnvFix ''ok'' = Inr (JString ''ok'')"
    by (simp add: exEnvFix_def exEnv_def)
  have h2: "parserParse exEnvFix ''bad'' = Inl (Thrown ''parse'')"
    by (simp add: exEnvFix_def exEnv_def)
  have h3: "fixingParse exEnvFix (fixCalls (exWorld :: unit world)) ''bad'' = Inr (JString ''fixed'')"
    by (simp add: exEnvFix_def exEnv_def)
  have h4: "admits (limiter (exWorld :: unit world))"
    by (simp add: exWorld_def exLimiter_def admits_def admit_cases jsLe_def)
  have s: "textTokens exEnvFix (stringify exEnvFix (JString ''fixed'')) = 1"
    by (simp add: exEnvFix_def exEnv_def)
  from parse_direct_or_fixed
         [of exEnvFix "''ok''" "JString ''ok''" "parserModel ''gpt-4''" 10 "exWorld :: unit world"]
       h1
  have a: "parse exEnvFix (parserModel ''gpt-4'') ''ok'' (natNum 10) (exWorld :: unit world) =
        Some (Inr \<lparr>data = JString ''ok'', fixTokensSent = None, fixTokensReceived = None,
                   fixCost = None, parserFixed = False\<rparr>, exWorld)"
    by blast
  from parse_direct_or_fixed
         [of exEnvFix "''bad''" "JString ''fixed''" "parserModel ''gpt-4''" 10
             "exWorld :: unit world" "Thrown ''parse''"]
       h2 h3 h4
  have b: "\<exists>w'. parse exEnvFix (parserModel ''gpt-4'') ''bad'' (natNum 10) (exWorld :: unit world) =
          Some (Inr \<lparr>data = JString ''fixed'',
                     fixTokensSent = Some (natNum 11),
                     fixTokensReceived = Some (natNum 1),
                     fixCost = Some NaN,
                     parserFixed = True\<rparr>, w')
          \<and> fixCalls w' = Suc (fixCalls (exWorld :: unit world))"
    by (simp add: s calculateCost_parserModel)
  from h1 a h2 h3 h4 b show ?thesis by simp
qed

text \<open>
  Claim C4 as stated fails on a prompt of one token: the tokens sent are \<open>1\<close>, not
  \<open>1.1\<close>; and the cost entry, computed by a model that was given no price, is \<open>NaN\<close>.
\<close>

theorem parse_fixed_counterexample:
  "parse exEnvFix (parserModel ''gpt-4'') ''bad'' (natNum 1) (exWorld :: unit world) =
     Some (Inr \<lparr>data = JString ''fixed'', fixTokensSent = Some (Num 1),
                fixTokensReceived = Some (Num 1), fixCost = Some NaN, parserFixed = True\<rparr>,
           \<lparr>limiter =
              \<lparr>requestLimiter = \<lparr>reservoir = Num 9, reservoirRefreshAmount = Num 10\<rparr>,
               tokenLimiter = \<lparr>reservoir = Num 98, reservoirRefreshAmount = Num 100\<rparr>\<rparr>,
            chainCalls = 0, fixCalls = 1, attempts = 0, delays = [],
            caught = [], consoleLog = [], progressCalls = []\<rparr>)
   \<and> jsMul (natNum 1) (Num (11 / 10)) = Num (11 / 10)
   \<and> Num 1 \<noteq> Num (11 / 10)"
  by code_simp

section \<open>The dry run\<close>

text \<open>
  Claim C5, as amended. A dry run on a prompt within the budget returns an estimate and
  leaves the world as it was: the completion chain is not invoked. The tokens sent are
  the token count of the prompt rendered on the data extended by \<open>remainingTokenCount\<close>
  and \<open>tokenCount\<close>; the tokens received are the declared response length when one is
  declared and is not zero, and \<open>maxTokens - tokensSent\<close> otherwise; the cost is the
  price formula of the model on the two. With prices that are not negative, the cost is
  not negative whenever the tokens received are not.
\<close>

theorem call_dryrun_estimate:
  assumes "maxTokens m = Some M"
    and "of_nat (countTokens env
           \<lparr>inputData = d, remainingTokenCount = None, tokenCount = None\<rparr>) \<le> M"
    and "dryrun d"
  shows "let T0 = countTokens env \<lparr>inputData = d, remainingTokenCount = None, tokenCount = None\<rparr>;
             S = countTokens env \<lparr>inputData = d,
                    remainingTokenCount = Some (Num (M - of_nat T0)), tokenCount = Some T0\<rparr>;
             R = (case responseTokenLength d of
                    None \<Rightarrow> Num (M - of_nat S)
                  | Some n \<Rightarrow> if n = 0 then Num (M - of_nat S) else natNum n)
         in call env m d retries retryDelay w =
              Some (Inr (Some \<lparr>response = None, tokensSent = natNum S, tokensReceived = R,
                               cost = calculateCost m (natNum S) R\<rparr>), w)
            \<and> (tokenTxPrice m = Some tx \<and> tokensRxPrice m = Some rx \<and> 0 \<le> tx \<and> 0 \<le> rx
                 \<and> jsLe (Num 0) R
               \<longrightarrow> jsLe (Num 0) (calculateCost m (natNum S) R))"
proof -
  let ?T0 = "countTokens env \<lparr>inputData = d, remainingTokenCount = None, tokenCount = None\<rparr>"
  let ?S = "countTokens env \<lparr>inputData = d,
              remainingTokenCount = Some (Num (M - of_nat ?T0)), tokenCount = Some ?T0\<rparr>"
  let ?R = "case responseTokenLength d of
              None \<Rightarrow> Num (M - of_nat ?S)
            | Some n \<Rightarrow> if n = 0 then Num (M - of_nat ?S) else natNum n"
  have eq: "call env m d retries retryDelay w =
              Some (Inr (Some \<lparr>response = None, tokensSent = natNum ?S, tokensReceived = ?R,
                               cost = calculateCost m (natNum ?S) ?R\<rparr>), w)"
    using assms by (simp add: call_def Let_def natNum_def split: option.splits)
  have "\<exists>r. ?R = Num r"
    by (simp add: natNum_def split: option.split)
  then obtain r where R: "?R = Num r" ..
  have nn: "tokenTxPrice m = Some tx \<and> tokensRxPrice m = Some rx \<and> 0 \<le> tx \<and> 0 \<le> rx
              \<and> jsLe (Num 0) ?R
            \<longrightarrow> jsLe (Num 0) (calculateCost m (natNum ?S) ?R)"
    unfolding R by (auto simp: natNum_def calculateCost_Num)
  show ?thesis unfolding Let_def using eq nn by blast
qed

theorem call_dryrun_estimate_witness:
  "maxTokens exModel = Some 100
   \<and> of_nat (countTokens exEnv
        \<lparr>inputData = exEstimate, remainingTokenCount = None, tokenCount = None\<rparr>) \<le> (100 :: rat)
   \<and> dryrun exEstimate
   \<and> call exEnv exModel exEstimate 5 1000 (exWorld :: unit world) =
        Some (Inr (Some \<lparr>response = None, tokensSent = Num 1, tokensReceived = Num 7,
                         cost = Num 15\<rparr>), exWorld)
   \<and> tokenTxPrice exModel = Some 1 \<and> tokensRxPrice exModel = Some 2
   \<and> jsLe (Num 0) (Num 7)
   \<and> jsLe (Num 0) (Num 15)"
proof -
  have h1: "maxTokens exModel = Some 100" by (simp add: exModel_def)
  have h2: "of_nat (countTokens exEnv
        \<lparr>inputData = exEstimate, remainingTokenCount = None, tokenCount = None\<rparr>) \<le> (100 :: rat)"
    by (simp add: exEnv_def countTokens_def)
  have h3: "dryrun exEstimate" by (simp add: exEstimate_def)
  have p: "tokenTxPrice exModel = Some 1" "tokensRxPrice exModel = Some 2"
    by (simp_all add: exModel_def)
  from call_dryrun_estimate [OF h1 h2 h3, where tx = 1 and rx = 2 and retries = 5
         and retryDelay = 1000 and w = "exWorld :: unit world"] h1 h2 h3 p
  show ?thesis
    by (simp add: Let_def exEnv_def countTokens_def exEstimate_def natNum_def
                  calculateCost_def)
qed

text \<open>
  Claim C5 as stated fails twice. A declared response length of \<open>0\<close> is taken as none:
  the tokens received are the remaining budget, \<open>99\<close>. And the count measured for the
  budget is not the count of the tokens sent: a prompt that prints \<open>tokenCount\<close> is within
  a budget of three tokens with the filler and is four tokens long with the count, so
  that the tokens received are \<open>-1\<close> and the cost is negative.
\<close>

theorem call_dryrun_counterexample:
  "call exEnv exModel exDryrun 5 1000 (exWorld :: unit world) =
     Some (Inr (Some \<lparr>response = None, tokensSent = Num 1, tokensReceived = Num 99,
                      cost = Num 199\<rparr>), exWorld)
   \<and> responseTokenLength exDryrun = Some 0
   \<and> call exEnvGrow exModelTight (exDryrun\<lparr>responseTokenLength := None\<rparr>) 5 1000
        (exWorld :: unit world) =
     Some (Inr (Some \<lparr>response = None, tokensSent = Num 4, tokensReceived = Num (- 1),
                      cost = Num (- 1)\<rparr>), exWorld)
   \<and> \<not> jsLt (jsSub (toNumber (maxTokens exModelTight))
          (natNum (countTokens exEnvGrow
             \<lparr>inputData = exDryrun\<lparr>responseTokenLength := None\<rparr>,
              remainingTokenCount = None, tokenCount = None\<rparr>)))
        (Num 0)"
  by code_simp

section \<open>The cost of a call\<close>

text \<open>A call that succeeds at its first attempt, on a completion that validates as it
  is, returns the token counts of the prompt and of the completion, and the price formula
  on the two.\<close>

lemma call_first_attempt_direct:
  assumes cap: "hasCapacity (limiter w)" and nd: "\<not> dryrun d" and r1: "1 \<le> retries"
    and M: "maxTokens m = Some M"
    and budget: "of_nat (countTokens env
           \<lparr>inputData = d, remainingTokenCount = None, tokenCount = None\<rparr>) \<le> M"
    and pd: "pd = \<lparr>inputData = d,
                   remainingTokenCount = Some (Num (M - of_nat (countTokens env
                      \<lparr>inputData = d, remainingTokenCount = None, tokenCount = None\<rparr>))),
                   tokenCount = Some (countTokens env
                      \<lparr>inputData = d, remainingTokenCount = None, tokenCount = None\<rparr>)\<rparr>"
    and chain: "chainCall env (chainCalls w) pd = Inr rawText"
    and direct: "parserParse env rawText = Inr v"
    and tx: "tokenTxPrice m = Some tx" and rx: "tokensRxPrice m = Some rx"
  shows "\<exists>w'. call env m d retries retryDelay w =
           Some (Inr (Some \<lparr>response = Some v,
                            tokensSent = natNum (countTokens env pd),
                            tokensReceived = natNum (textTokens env rawText),
                            cost = Num (of_nat (countTokens env pd) * tx
                                        + rx * of_nat (textTokens env rawText))\<rparr>), w')"
proof -
  obtain n where n: "retries = Suc n" using r1 by (cases retries) auto
  from admit_returns [OF cap] obtain l where l: "admit (limiter w) = Some l" by blast
  have eq: "call env m d retries retryDelay w
              = retryLoop env m pd retryDelay (Suc n) (Num 0, Num 0, Num 0) w"
    using nd M budget by (simp add: call_def Let_def pd natNum_def n)
  show ?thesis
    unfolding eq
    using chain direct tx rx
    by (simp add: process_admit l callTask_def Let_def parse_direct orZero_def
                  calculateCost_Num natNum_def)
qed

text \<open>
  Claim C1. The cost of a returned result is not the price formula on its token counts
  in two cases. After a failed attempt that had received its completion, the counters
  keep what that attempt added and the next attempt adds the price of the running
  totals: two prompts of one token and completions of three and two tokens, at prices
  \<open>1\<close> and \<open>2\<close>, cost \<open>19\<close>, where the formula gives \<open>12\<close>. After a fixing pass, the
  tokens of the pass are added and its cost, \<open>NaN\<close>, is not: the cost is \<open>7\<close>, where the
  formula gives \<open>10\<close>.
\<close>

theorem call_cost_not_price_formula:
  "call exEnv exModel exData 5 1000 (exWorld :: unit world) =
     Some (Inr (Some \<lparr>response = Some (JString ''ok''), tokensSent = Num 2,
                      tokensReceived = Num 5, cost = Num 19\<rparr>),
           \<lparr>limiter =
              \<lparr>requestLimiter = \<lparr>reservoir = Num 7, reservoirRefreshAmount = Num 10\<rparr>,
               tokenLimiter = \<lparr>reservoir = Num 90, reservoirRefreshAmount = Num 100\<rparr>\<rparr>,
            chainCalls = 2, fixCalls = 1, attempts = 2, delays = [1000],
            caught = [Thrown ''fix''], consoleLog = [], progressCalls = []\<rparr>)
   \<and> calculateCost exModel (Num 2) (Num 5) = Num 12
   \<and> call exEnvFix exModel exData 5 1000 (exWorld :: unit world) =
     Some (Inr (Some \<lparr>response = Some (JString ''fixed''), tokensSent = Num 2,
                      tokensReceived = Num 4, cost = Num 7\<rparr>),
           \<lparr>limiter =
              \<lparr>requestLimiter = \<lparr>reservoir = Num 8, reservoirRefreshAmount = Num 10\<rparr>,
               tokenLimiter = \<lparr>reservoir = Num 93, reservoirRefreshAmount = Num 100\<rparr>\<rparr>,
            chainCalls = 1, fixCalls = 1, attempts = 1, delays = [],
            caught = [], consoleLog = [], progressCalls = []\<rparr>)
   \<and> calculateCost exModel (Num 2) (Num 4) = Num 10"
  by code_simp

section \<open>The splitter\<close>

text \<open>
  Claim C8. The total token length that \<open>splitText\<close> returns is the token count of the
  whole text plus the overlap times the number of excerpts returned, of which there is
  at least one. Every excerpt carries its token count and the percentage
  \<^verbatim>\<open>Math.round(excerptTokenLength / totalTextTokenLength * 100)\<close>, the quotient and the
  product each rounded to the nearest binary64 value as the code computes them: an
  excerpt of 23 tokens out of 40 carries 57, the product being just below 57.5.
\<close>

theorem splitText_total_and_percentage:
  "totalTextTokenLength (splitText env sp text)
     = textTokens env text + chunkOverlap sp * length (excerpts (splitText env sp text))
   \<and> excerpts (splitText env sp text) \<noteq> []
   \<and> (\<forall>e \<in> set (excerpts (splitText env sp text)).
         excerptTokenLength e = textTokens env (excerpt e)
       \<and> excerptPercentageLength e =
           jsRound (dbl (jsMul (dbl (jsDiv (natNum (excerptTokenLength e))
                                    (natNum (totalTextTokenLength (splitText env sp text)))))
                               (Num 100))))"
proof (intro conjI ballI)
  show "totalTextTokenLength (splitText env sp text)
     = textTokens env text + chunkOverlap sp * length (excerpts (splitText env sp text))"
    by (simp add: splitText_def Let_def)
  show "excerpts (splitText env sp text) \<noteq> []"
    by (simp add: splitText_def Let_def)
next
  fix e assume e: "e \<in> set (excerpts (splitText env sp text))"
  then show "excerptTokenLength e = textTokens env (excerpt e)"
    by (auto simp: splitText_def Let_def)
  from e show "excerptPercentageLength e =
           jsRound (dbl (jsMul (dbl (jsDiv (natNum (excerptTokenLength e))
                                    (natNum (totalTextTokenLength (splitText env sp text)))))
                               (Num 100)))"
    by (auto simp: splitText_def Let_def)
qed

lemma splitText_example:
  "splitText exEnv exSplitter ''abcdef'' =
     \<lparr>totalTextTokenLength = 10,
      excerpts = [\<lparr>excerpt = ''abcd'', excerptTokenLength = 4, excerptPercentageLength = Num 40\<rparr>,
                  \<lparr>excerpt = ''cdef'', excerptTokenLength = 4, excerptPercentageLength = Num 40\<rparr>]\<rparr>"
  by code_simp

lemma splitText_uneven:
  "splitText exEnv exSplitterUneven exText =
     \<lparr>totalTextTokenLength = 40,
      excerpts = [\<lparr>excerpt = replicate 23 CHR ''x'', excerptTokenLength = 23,
                   excerptPercentageLength = Num 57\<rparr>,
                  \<lparr>excerpt = replicate 17 CHR ''x'', excerptTokenLength = 17,
                   excerptPercentageLength = Num 43\<rparr>]\<rparr>"
  by code_simp

lemma percentage_uneven:
  "jsMul (jsDiv (natNum 23) (natNum 40)) (Num 100) = Num (115 / 2)"
  "dbl (jsDiv (natNum 23) (natNum 40)) = Num (2589569785738035 / 4503599627370496)"
  "dbl (jsMul (dbl (jsDiv (natNum 23) (natNum 40))) (Num 100))
     = Num (115 / 2 - 1 / 140737488355328)"
  by code_simp+

theorem splitText_total_and_percentage_witness:
  "\<lparr>excerpt = replicate 23 CHR ''x'', excerptTokenLength = 23, excerptPercentageLength = Num 57\<rparr>
     \<in> set (excerpts (splitText exEnv exSplitterUneven exText))
   \<and> totalTextTokenLength (splitText exEnv exSplitterUneven exText)
       = textTokens exEnv exText + chunkOverlap exSplitterUneven * 2
   \<and> totalTextTokenLength (splitText exEnv exSplitterUneven exText) = 40
   \<and> Num 57 = jsRound (dbl (jsMul (dbl (jsDiv (natNum 23) (natNum 40))) (Num 100)))
   \<and> dbl (jsMul (dbl (jsDiv (natNum 23) (natNum 40))) (Num 100))
       = Num (115 / 2 - 1 / 140737488355328)
   \<and> \<lparr>excerpt = ''abcd'', excerptTokenLength = 4, excerptPercentageLength = Num 40\<rparr>
     \<in> set (excerpts (splitText exEnv exSplitter ''abcdef''))
   \<and> totalTextTokenLength (splitText exEnv exSplitter ''abcdef'')
       = textTokens exEnv ''abcdef'' + chunkOverlap exSplitter * 2
   \<and> totalTextTokenLength (splitText exEnv exSplitter ''abcdef'') = 10
   \<and> Num 40 = jsRound (dbl (jsMul (dbl (jsDiv (natNum 4) (natNum 10))) (Num 100)))"
proof -
  let ?e = "\<lparr>excerpt = replicate 23 CHR ''x'', excerptTokenLength = 23,
             excerptPercentageLength = Num 57\<rparr>"
  let ?f = "\<lparr>excerpt = ''abcd'', excerptTokenLength = 4, excerptPercentageLength = Num 40\<rparr>"
  have m: "?e \<in> set (excerpts (splitText exEnv exSplitterUneven exText))"
    by (simp add: splitText_uneven)
  have m': "?f \<in> set (excerpts (splitText exEnv exSplitter ''abcdef''))"
    by (simp add: splitText_example)
  note t = splitText_total_and_percentage [of exEnv exSplitterUneven exText]
  note t' = splitText_total_and_percentage [of exEnv exSplitter "''abcdef''"]
  from t have t1: "totalTextTokenLength (splitText exEnv exSplitterUneven exText)
     = textTokens exEnv exText
       + chunkOverlap exSplitterUneven
         * length (excerpts (splitText exEnv exSplitterUneven exText))"
    by (rule conjunct1)
  from t m have t2:
    "excerptPercentageLength ?e
     = jsRound (dbl (jsMul (dbl (jsDiv (natNum (excerptTokenLength ?e))
         (natNum (totalTextTokenLength (splitText exEnv exSplitterUneven exText)))))
         (Num 100)))"
    by blast
  from t' have t1': "totalTextTokenLength (splitText exEnv exSplitter ''abcdef'')
     = textTokens exEnv ''abcdef''
       + chunkOverlap exSplitter * length (excerpts (splitText exEnv exSplitter ''abcdef''))"
    by (rule conjunct1)
  from t' m' have t2':
    "excerptPercentageLength ?f
     = jsRound (dbl (jsMul (dbl (jsDiv (natNum (excerptTokenLength ?f))
         (natNum (totalTextTokenLength (splitText exEnv exSplitter ''abcdef'')))))
         (Num 100)))"
    by blast
  have a: "totalTextTokenLength (splitText exEnv exSplitterUneven exText)
       = textTokens exEnv exText + chunkOverlap exSplitterUneven * 2"
    using t1 by (simp add: splitText_uneven)
  have b: "Num 57 = jsRound (dbl (jsMul (dbl (jsDiv (natNum 23) (natNum 40))) (Num 100)))"
    using t2 by (simp add: splitText_uneven)
  have a': "totalTextTokenLength (splitText exEnv exSplitter ''abcdef'')
       = textTokens exEnv ''abcdef'' + chunkOverlap exSplitter * 2"
    using t1' by (simp add: splitText_example)
  have b': "Num 40 = jsRound (dbl (jsMul (dbl (jsDiv (natNum 4) (natNum 10))) (Num 100)))"
    using t2' by (simp add: splitText_example)
  show ?thesis
    using m a b m' a' b' percentage_uneven(3)
    by (simp add: splitText_uneven splitText_example)
qed

section \<open>The loop over the excerpts\<close>

lemma retryLoop_log:
  "retryLoop env m pd retryDelay n acc w = Some (r, w') \<Longrightarrow>
     consoleLog w' = consoleLog w \<and> progressCalls w' = progressCalls w"
proof (induction n arbitrary: acc w)
  case 0
  then show ?case by simp
next
  case (Suc n)
  from Suc.prems obtain x w1 where
    p: "process (callTask env m pd acc) (w\<lparr>attempts := Suc (attempts w)\<rparr>) = Some (x, w1)"
    by (auto split: option.splits)
  have "sameTrace (w\<lparr>attempts := Suc (attempts w)\<rparr>) w1"
    by (rule process_sameTrace [OF p]) (rule callTask_sameTrace)
  then have fr: "consoleLog w1 = consoleLog w" "progressCalls w1 = progressCalls w"
    by (simp_all add: sameTrace_def)
  show ?case
  proof (cases x)
    case (Inr res)
    with Suc.prems p fr show ?thesis by simp
  next
    case (Inl ea)
    obtain err acc' where ea: "ea = (err, acc')" by (cases ea) auto
    show ?thesis
    proof (cases "n = 0")
      case True
      with Suc.prems p Inl ea fr show ?thesis by auto
    next
      case False
      with Suc.prems p Inl ea have
        "retryLoop env m pd retryDelay n acc'
           (w1\<lparr>caught := caught w1 @ [err],
               delays := delays (w1\<lparr>caught := caught w1 @ [err]\<rparr>) @ [retryDelay]\<rparr>) = Some (r, w')"
        by (simp add: Let_def)
      from Suc.IH [OF this] fr show ?thesis by simp
    qed
  qed
qed

lemma call_log:
  "call env m d retries retryDelay w = Some (r, w') \<Longrightarrow>
     consoleLog w' = consoleLog w \<and> progressCalls w' = progressCalls w"
  by (auto simp: call_def Let_def split: if_splits dest: retryLoop_log)

lemma call_returns:
  assumes "hasCapacity (limiter w)"
  shows "\<exists>r w'. call env m d retries retryDelay w = Some (r, w') \<and> hasCapacity (limiter w')"
  using assms retryLoop_returns [OF assms, of env m _ retryDelay retries "(Num 0, Num 0, Num 0)"]
  by (simp add: call_def Let_def)

lemma excerptCall_log:
  "excerptCall env dp settings args st w = Some (x, w') \<Longrightarrow>
     consoleLog w' = consoleLog w \<and> progressCalls w' = progressCalls w"
  by (auto simp: excerptCall_def Let_def split: if_splits option.splits sum.splits prod.splits
           dest: call_log)

lemma excerptCall_returns:
  assumes "hasCapacity (limiter w)"
  shows "\<exists>x w'. excerptCall env dp settings args st w = Some (x, w') \<and> hasCapacity (limiter w')"
proof (cases "settingsDryrun settings")
  case True
  with assms show ?thesis by (simp add: excerptCall_def Let_def)
next
  case False
  from call_returns [OF assms, of env "docModel dp"
      "\<lparr>dryrun = settingsDryrun settings, responseTokenLength = docResponseTokenLength dp,
        vars = args\<rparr>" 5 1000]
  obtain r w' where "call env (docModel dp)
      \<lparr>dryrun = settingsDryrun settings, responseTokenLength = docResponseTokenLength dp,
        vars = args\<rparr> 5 1000 w = Some (r, w')" "hasCapacity (limiter w')" by blast
  with False show ?thesis
    by (cases r) (simp_all add: excerptCall_def Let_def)
qed

lemma excerptCall_response:
  "excerptCall env dp settings args st w = Some (Inr st1, w') \<Longrightarrow>
     count st1 = count st \<and> currentTokenCount st1 = currentTokenCount st
     \<and> (docResponse st \<noteq> None \<longrightarrow> docResponse st1 \<noteq> None)"
  by (auto simp: excerptCall_def Let_def split: if_splits option.splits sum.splits prod.splits)

lemma excerptBody_returns:
  assumes "hasCapacity (limiter w)"
  shows "\<exists>out st' w'. excerptBody env dp settings T e st w = Some (out, st', w')
           \<and> hasCapacity (limiter w')"
proof -
  from excerptCall_returns [OF assms, of env dp settings "excerptArgs env T e st" st]
  obtain x w1 where c: "excerptCall env dp settings (excerptArgs env T e st) st w = Some (x, w1)"
    and cap: "hasCapacity (limiter w1)" by blast
  show ?thesis using c cap
    by (cases x) (auto simp: excerptBody_def Let_def split: option.splits sum.splits)
qed

lemma excerptBody_response:
  assumes "excerptBody env dp settings T e st w = Some (out, st', w')"
  shows "docResponse st \<noteq> None \<longrightarrow> docResponse st' \<noteq> None"
  using assms
  by (auto simp: excerptBody_def Let_def split: option.splits sum.splits prod.splits
           dest!: excerptCall_response)

lemma docLoop_returns:
  assumes "hasCapacity (limiter w)"
  shows "\<exists>st' w'. docLoop env dp settings T es st w = Some (st', w')"
  using assms
proof (induction es arbitrary: st w)
  case Nil
  then show ?case by simp
next
  case (Cons e es)
  from excerptBody_returns [OF Cons.prems, of env dp settings T e st]
  obtain out st1 w1 where b: "excerptBody env dp settings T e st w = Some (out, st1, w1)"
    and cap: "hasCapacity (limiter w1)" by blast
  show ?case
  proof (cases out)
    case Continue
    with b Cons.IH [OF cap, of st1] show ?thesis by simp
  next
    case Break
    with b show ?thesis by simp
  next
    case (Caught err)
    have "hasCapacity (limiter (w1\<lparr>consoleLog := consoleLog w1 @ [err]\<rparr>))" using cap by simp
    from Cons.IH [OF this, of st1] b Caught show ?thesis by simp
  qed
qed

lemma docLoop_response:
  assumes "docLoop env dp settings T es st w = Some (st', w')"
  shows "docResponse st \<noteq> None \<longrightarrow> docResponse st' \<noteq> None"
  using assms
proof (induction es arbitrary: st w)
  case Nil
  then show ?case by simp
next
  case (Cons e es)
  from Cons.prems obtain out st1 w1 where
    b: "excerptBody env dp settings T e st w = Some (out, st1, w1)"
    by (auto split: option.splits)
  note k = excerptBody_response [OF b]
  show ?case
  proof (cases out)
    case Continue
    with b Cons.prems have "docLoop env dp settings T es st1 w1 = Some (st', w')" by simp
    from Cons.IH [OF this] k show ?thesis by blast
  next
    case Break
    with b Cons.prems k show ?thesis by simp
  next
    case (Caught err)
    with b Cons.prems have
      "docLoop env dp settings T es st1 (w1\<lparr>consoleLog := consoleLog w1 @ [err]\<rparr>) = Some (st', w')"
      by simp
    from Cons.IH [OF this] k show ?thesis by blast
  qed
qed

lemma excerptBody_log:
  "excerptBody env dp settings T e st w = Some (out, st', w') \<Longrightarrow> consoleLog w' = consoleLog w"
  by (auto simp: excerptBody_def Let_def split: option.splits sum.splits prod.splits
           dest!: excerptCall_log)

lemma docLoop_log:
  "docLoop env dp settings T es st w = Some (st', w') \<Longrightarrow>
     \<exists>logged. consoleLog w' = consoleLog w @ logged"
proof (induction es arbitrary: st w)
  case Nil
  then show ?case by simp
next
  case (Cons e es)
  from Cons.prems obtain out st1 w1 where
    b: "excerptBody env dp settings T e st w = Some (out, st1, w1)"
    by (auto split: option.splits)
  note k = excerptBody_log [OF b]
  show ?case
  proof (cases out)
    case Continue
    with b Cons.prems have "docLoop env dp settings T es st1 w1 = Some (st', w')" by simp
    from Cons.IH [OF this] k show ?thesis by simp
  next
    case Break
    with b Cons.prems k show ?thesis by simp
  next
    case (Caught err)
    with b Cons.prems have
      "docLoop env dp settings T es st1 (w1\<lparr>consoleLog := consoleLog w1 @ [err]\<rparr>) = Some (st', w')"
      by simp
    from Cons.IH [OF this] k show ?thesis by auto
  qed
qed

lemma excerptBody_Caught:
  assumes "excerptBody env dp settings T e st w = Some (Caught err, st1, w1)"
  shows "case excerptCall env dp settings (excerptArgs env T e st) st w of
           None \<Rightarrow> False
         | Some (Inl err', w2) \<Rightarrow> err' = err \<and> st1 = st \<and> w1 = w2
         | Some (Inr st2, w2) \<Rightarrow>
             st1 = st2\<lparr>currentTokenCount := currentTokenCount st2 + excerptTokenLength e,
                        count := Suc (count st2)\<rparr>"
  using assms
  by (auto simp: excerptBody_def Let_def split: option.splits sum.splits prod.splits if_splits)

lemma documentCall_returns:
  assumes "hasCapacity (limiter w)"
  shows "\<exists>st w'.
           docLoop env dp settings (totalTextTokenLength (splitText env sp text))
             (excerpts (splitText env sp text)) initialState w = Some (st, w')
         \<and> documentCall env dp sp text settings w =
             Some (\<lparr>response = docResponse st, tokensSent = docTokensSent st,
                    tokensReceived = docTokensReceived st, cost = docCost st\<rparr>, w')"
proof -
  from docLoop_returns [OF assms, of env dp settings "totalTextTokenLength (splitText env sp text)"
         "excerpts (splitText env sp text)" initialState]
  obtain st w' where
    "docLoop env dp settings (totalTextTokenLength (splitText env sp text))
             (excerpts (splitText env sp text)) initialState w = Some (st, w')" by blast
  then show ?thesis by (simp add: documentCall_def Let_def)
qed

lemma call_defined:
  assumes "call env m d retries retryDelay w = Some (r, w')" and "1 \<le> retries"
  shows "r \<noteq> Inr None"
proof (cases "jsLt (jsSub (toNumber (maxTokens m))
             (natNum (countTokens env
                \<lparr>inputData = d, remainingTokenCount = None, tokenCount = None\<rparr>)))
             (Num 0) \<or> dryrun d")
  case True
  with assms(1) show ?thesis by (auto simp: call_def Let_def split: if_splits)
next
  case False
  with assms(1) obtain pd where
    "retryLoop env m pd retryDelay retries (Num 0, Num 0, Num 0) w = Some (r, w')"
    by (auto simp: call_def Let_def)
  from retryLoop_result [OF this assms(2)] show ?thesis by auto
qed

lemma call_chain_down:
  assumes "\<forall>k pd. chainCall env k pd = Inl err0" and "hasCapacity (limiter w)"
    and "\<not> dryrun d" and "1 \<le> retries"
  shows "\<exists>err w1. call env m d retries retryDelay w = Some (Inl err, w1)
           \<and> hasCapacity (limiter w1) \<and> consoleLog w1 = consoleLog w"
proof (cases "jsLt (jsSub (toNumber (maxTokens m))
             (natNum (countTokens env
                \<lparr>inputData = d, remainingTokenCount = None, tokenCount = None\<rparr>)))
             (Num 0)")
  case True
  with assms(2) show ?thesis by (simp add: call_def Let_def)
next
  case False
  let ?pd = "\<lparr>inputData = d,
              remainingTokenCount = Some (jsSub (toNumber (maxTokens m))
                (natNum (countTokens env
                   \<lparr>inputData = d, remainingTokenCount = None, tokenCount = None\<rparr>))),
              tokenCount = Some (countTokens env
                   \<lparr>inputData = d, remainingTokenCount = None, tokenCount = None\<rparr>)\<rparr>"
  obtain n where n: "retries = Suc n" using assms(4) by (cases retries) auto
  have eq: "call env m d retries retryDelay w
              = retryLoop env m ?pd retryDelay (Suc n) (Num 0, Num 0, Num 0) w"
    using False assms(3) n by (simp add: call_def Let_def del: retryLoop.simps)
  from assms(1) have "\<forall>k. chainCall env k ?pd = Inl err0" by simp
  from retryLoop_chain_down [OF this assms(2), of m retryDelay n "(Num 0, Num 0, Num 0)"]
  obtain l where "hasCapacity l"
    and "retryLoop env m ?pd retryDelay (Suc n) (Num 0, Num 0, Num 0) w
               = Some (Inl err0,
                       w\<lparr>limiter := l,
                          chainCalls := chainCalls w + Suc n,
                          attempts := attempts w + Suc n,
                          delays := delays w @ replicate n retryDelay,
                          caught := caught w @ replicate (Suc n) err0\<rparr>)"
    by blast
  then show ?thesis
    by (intro exI [of _ err0]
              exI [of _ "w\<lparr>limiter := l,
                          chainCalls := chainCalls w + Suc n,
                          attempts := attempts w + Suc n,
                          delays := delays w @ replicate n retryDelay,
                          caught := caught w @ replicate (Suc n) err0\<rparr>"])
       (simp only: eq, simp)
qed

lemma docLoop_chain_down:
  assumes "\<forall>k pd. chainCall env k pd = Inl err0" and "\<not> settingsDryrun settings"
    and "hasCapacity (limiter w)"
  shows "\<exists>w' logged. docLoop env dp settings T es st w = Some (st, w')
           \<and> consoleLog w' = consoleLog w @ logged \<and> length logged = length es"
  using assms(3)
proof (induction es arbitrary: w)
  case Nil
  then show ?case by simp
next
  case (Cons e es)
  let ?d = "\<lparr>dryrun = False, responseTokenLength = docResponseTokenLength dp,
             vars = excerptArgs env T e st\<rparr>"
  have "\<not> dryrun ?d" by simp
  from call_chain_down [OF assms(1) Cons.prems this, of 5 "docModel dp" 1000]
  obtain err w1 where c: "call env (docModel dp) ?d 5 1000 w = Some (Inl err, w1)"
    and cap: "hasCapacity (limiter w1)" and lg: "consoleLog w1 = consoleLog w"
    by auto
  have eq: "docLoop env dp settings T (e # es) st w
              = docLoop env dp settings T es st (w1\<lparr>consoleLog := consoleLog w1 @ [err]\<rparr>)"
    using assms(2) c by (simp add: excerptBody_def excerptCall_def Let_def)
  have "hasCapacity (limiter (w1\<lparr>consoleLog := consoleLog w1 @ [err]\<rparr>))" using cap by simp
  from Cons.IH [OF this] obtain w' logged where
    l: "docLoop env dp settings T es st (w1\<lparr>consoleLog := consoleLog w1 @ [err]\<rparr>)
          = Some (st, w')"
    and g: "consoleLog w' = consoleLog (w1\<lparr>consoleLog := consoleLog w1 @ [err]\<rparr>) @ logged"
    and n: "length logged = length es"
    by blast
  show ?case
    using eq l g n lg
    by (intro exI [of _ w'] exI [of _ "err # logged"]) simp
qed

text \<open>
  Claim C6, as amended. Take an excerpt \<open>e\<close> met by the loop of \<open>DocumentPrompt.call\<close>
  with the variables \<open>st\<close>, outside a dry run. When the call of the prompt throws, after
  its five attempts, the error is written to the console and the loop goes on with the
  next excerpt and the variables \<open>st\<close> it had: the response seen last and the totals are
  kept, and nothing is added for the failed excerpt, whatever its attempts sent and
  received; the error is in the log when the loop ends. When the call returns a result
  the loop goes on with its cost and token counts added to the totals (a count or cost
  that is \<open>NaN\<close> or \<open>0\<close> adds \<open>0\<close>), with its response when that is truthy and the
  response seen last otherwise, and with the excerpt counted. When the progress callback
  throws, the error is logged and the loop goes on with the variables that hold the
  excerpt's result. The call never returns \<open>undefined\<close>, and while it is suspended the
  loop is. After the last excerpt the loop ends, and \<open>DocumentPrompt.call\<close> returns the
  response and the three totals of its variables; with a limiter that is refilled it
  does return. On a completion chain that always throws, every excerpt fails and is
  logged, and the value returned is no response and totals of \<open>0\<close>.
\<close>

theorem docLoop_survives_excerpt_failure:
  "(let args = excerptArgs env T e st;
        d = \<lparr>dryrun = False, responseTokenLength = docResponseTokenLength dp, vars = args\<rparr>;
        st2 = st\<lparr>docCost := jsAdd (docCost st) (orZero (Some (cost r))),
                 docTokensSent := jsAdd (docTokensSent st) (orZero (Some (tokensSent r))),
                 docTokensReceived :=
                   jsAdd (docTokensReceived st) (orZero (Some (tokensReceived r))),
                 docResponse := (case response r of
                                   None \<Rightarrow> docResponse st
                                 | Some v \<Rightarrow> if truthy v then Some v else docResponse st),
                 currentTokenCount := currentTokenCount st + excerptTokenLength e,
                 count := Suc (count st)\<rparr>;
        ps = progressArgument args st2
    in (\<not> settingsDryrun settings
          \<and> call env (docModel dp) d 5 1000 w = Some (Inl err, w1) \<longrightarrow>
            docLoop env dp settings T (e # es) st w
              = docLoop env dp settings T es st (w1\<lparr>consoleLog := consoleLog w1 @ [err]\<rparr>)
          \<and> (docLoop env dp settings T (e # es) st w = Some (st', w') \<longrightarrow>
               (\<exists>logged. consoleLog w' = consoleLog w @ err # logged)))
     \<and> (\<not> settingsDryrun settings \<and> progress settings = None
          \<and> call env (docModel dp) d 5 1000 w = Some (Inr (Some r), w1) \<longrightarrow>
            docLoop env dp settings T (e # es) st w = docLoop env dp settings T es st2 w1)
     \<and> (\<not> settingsDryrun settings \<and> progress settings = Some callback
          \<and> call env (docModel dp) d 5 1000 w = Some (Inr (Some r), w1)
          \<and> callback ps = Inl err \<longrightarrow>
            docLoop env dp settings T (e # es) st w
              = docLoop env dp settings T es st2
                  (w1\<lparr>progressCalls := progressCalls w1 @ [ps],
                      consoleLog := consoleLog w1 @ [err]\<rparr>))
     \<and> (\<not> settingsDryrun settings \<and> call env (docModel dp) d 5 1000 w = None \<longrightarrow>
            docLoop env dp settings T (e # es) st w = None)
     \<and> call env (docModel dp) d 5 1000 w \<noteq> Some (Inr None, w1))
   \<and> docLoop env dp settings T [] st w = Some (st, w)
   \<and> documentCall env dp sp text settings w0 =
       (case docLoop env dp settings (totalTextTokenLength (splitText env sp text))
               (excerpts (splitText env sp text)) initialState w0 of
          None \<Rightarrow> None
        | Some (st3, w3) \<Rightarrow>
            Some (\<lparr>response = docResponse st3, tokensSent = docTokensSent st3,
                   tokensReceived = docTokensReceived st3, cost = docCost st3\<rparr>, w3))
   \<and> (hasCapacity (limiter w0) \<longrightarrow>
        (\<exists>res w3. documentCall env dp sp text settings w0 = Some (res, w3)))
   \<and> ((\<forall>k pd. chainCall env k pd = Inl err0) \<and> \<not> settingsDryrun settings
        \<and> hasCapacity (limiter w0) \<longrightarrow>
        (\<exists>w3 logged.
            documentCall env dp sp text settings w0 =
              Some (\<lparr>response = None, tokensSent = Num 0, tokensReceived = Num 0,
                     cost = Num 0\<rparr>, w3)
          \<and> consoleLog w3 = consoleLog w0 @ logged
          \<and> length logged = length (excerpts (splitText env sp text))))"
proof -
  let ?args = "excerptArgs env T e st"
  let ?d = "\<lparr>dryrun = False, responseTokenLength = docResponseTokenLength dp, vars = ?args\<rparr>"
  let ?st2 = "st\<lparr>docCost := jsAdd (docCost st) (orZero (Some (cost r))),
                 docTokensSent := jsAdd (docTokensSent st) (orZero (Some (tokensSent r))),
                 docTokensReceived :=
                   jsAdd (docTokensReceived st) (orZero (Some (tokensReceived r))),
                 docResponse := (case response r of
                                   None \<Rightarrow> docResponse st
                                 | Some v \<Rightarrow> if truthy v then Some v else docResponse st),
                 currentTokenCount := currentTokenCount st + excerptTokenLength e,
                 count := Suc (count st)\<rparr>"
  let ?ps = "progressArgument ?args ?st2"
  have threw: "\<not> settingsDryrun settings
          \<and> call env (docModel dp) ?d 5 1000 w = Some (Inl err, w1) \<longrightarrow>
            docLoop env dp settings T (e # es) st w
              = docLoop env dp settings T es st (w1\<lparr>consoleLog := consoleLog w1 @ [err]\<rparr>)
          \<and> (docLoop env dp settings T (e # es) st w = Some (st', w') \<longrightarrow>
               (\<exists>logged. consoleLog w' = consoleLog w @ err # logged))"
  proof (intro impI, elim conjE)
    assume nd: "\<not> settingsDryrun settings"
      and c: "call env (docModel dp) ?d 5 1000 w = Some (Inl err, w1)"
    have eq: "docLoop env dp settings T (e # es) st w
              = docLoop env dp settings T es st (w1\<lparr>consoleLog := consoleLog w1 @ [err]\<rparr>)"
      using nd c by (simp add: excerptBody_def excerptCall_def Let_def)
    have "\<exists>logged. consoleLog w' = consoleLog w @ err # logged"
      if l: "docLoop env dp settings T (e # es) st w = Some (st', w')"
    proof -
      from l eq have "docLoop env dp settings T es st
                        (w1\<lparr>consoleLog := consoleLog w1 @ [err]\<rparr>) = Some (st', w')"
        by simp
      from docLoop_log [OF this] call_log [OF c] show ?thesis by auto
    qed
    with eq show "docLoop env dp settings T (e # es) st w
              = docLoop env dp settings T es st (w1\<lparr>consoleLog := consoleLog w1 @ [err]\<rparr>)
          \<and> (docLoop env dp settings T (e # es) st w = Some (st', w') \<longrightarrow>
               (\<exists>logged. consoleLog w' = consoleLog w @ err # logged))"
      by blast
  qed
  have returned: "\<not> settingsDryrun settings \<and> progress settings = None
          \<and> call env (docModel dp) ?d 5 1000 w = Some (Inr (Some r), w1) \<longrightarrow>
            docLoop env dp settings T (e # es) st w = docLoop env dp settings T es ?st2 w1"
    by (simp add: excerptBody_def excerptCall_def Let_def)
  have callback: "\<not> settingsDryrun settings \<and> progress settings = Some callback
          \<and> call env (docModel dp) ?d 5 1000 w = Some (Inr (Some r), w1)
          \<and> callback ?ps = Inl err \<longrightarrow>
            docLoop env dp settings T (e # es) st w
              = docLoop env dp settings T es ?st2
                  (w1\<lparr>progressCalls := progressCalls w1 @ [?ps],
                      consoleLog := consoleLog w1 @ [err]\<rparr>)"
    by (simp add: excerptBody_def excerptCall_def Let_def)
  have suspended: "\<not> settingsDryrun settings \<and> call env (docModel dp) ?d 5 1000 w = None \<longrightarrow>
            docLoop env dp settings T (e # es) st w = None"
    by (simp add: excerptBody_def excerptCall_def Let_def)
  have defined: "call env (docModel dp) ?d 5 1000 w \<noteq> Some (Inr None, w1)"
    using call_defined [of env "docModel dp" ?d 5 1000 w "Inr None" w1] by auto
  have doc: "documentCall env dp sp text settings w0 =
       (case docLoop env dp settings (totalTextTokenLength (splitText env sp text))
               (excerpts (splitText env sp text)) initialState w0 of
          None \<Rightarrow> None
        | Some (st3, w3) \<Rightarrow>
            Some (\<lparr>response = docResponse st3, tokensSent = docTokensSent st3,
                   tokensReceived = docTokensReceived st3, cost = docCost st3\<rparr>, w3))"
    by (simp add: documentCall_def Let_def)
  have live: "hasCapacity (limiter w0) \<longrightarrow>
        (\<exists>res w3. documentCall env dp sp text settings w0 = Some (res, w3))"
    using documentCall_returns [of w0 env dp settings sp "text"] by blast
  have all_fail: "(\<forall>k pd. chainCall env k pd = Inl err0) \<and> \<not> settingsDryrun settings
        \<and> hasCapacity (limiter w0) \<longrightarrow>
        (\<exists>w3 logged.
            documentCall env dp sp text settings w0 =
              Some (\<lparr>response = None, tokensSent = Num 0, tokensReceived = Num 0,
                     cost = Num 0\<rparr>, w3)
          \<and> consoleLog w3 = consoleLog w0 @ logged
          \<and> length logged = length (excerpts (splitText env sp text)))"
  proof (intro impI, elim conjE)
    assume c: "\<forall>k pd. chainCall env k pd = Inl err0" and nd: "\<not> settingsDryrun settings"
      and cap: "hasCapacity (limiter w0)"
    from docLoop_chain_down [OF c nd cap, of dp "totalTextTokenLength (splitText env sp text)"
           "excerpts (splitText env sp text)" initialState]
    obtain w3 logged where
      l: "docLoop env dp settings (totalTextTokenLength (splitText env sp text))
            (excerpts (splitText env sp text)) initialState w0 = Some (initialState, w3)"
      and g: "consoleLog w3 = consoleLog w0 @ logged"
             "length logged = length (excerpts (splitText env sp text))"
      by blast
    have "documentCall env dp sp text settings w0 =
              Some (\<lparr>response = None, tokensSent = Num 0, tokensReceived = Num 0,
                     cost = Num 0\<rparr>, w3)"
      unfolding doc l by (simp add: initialState_def)
    with g show "\<exists>w3 logged.
            documentCall env dp sp text settings w0 =
              Some (\<lparr>response = None, tokensSent = Num 0, tokensReceived = Num 0,
                     cost = Num 0\<rparr>, w3)
          \<and> consoleLog w3 = consoleLog w0 @ logged
          \<and> length logged = length (excerpts (splitText env sp text))"
      by blast
  qed
  show ?thesis
    unfolding Let_def
    using threw returned callback suspended defined doc live all_fail
    by (intro conjI) simp_all
qed

lemma splitText_failgood:
  "splitText exDocEnv exDocSplitter ''failgood''
     = \<lparr>totalTextTokenLength = 8, excerpts = [exFail, exGood]\<rparr>"
  "splitText exDocEnv exDocSplitter ''goodfail''
     = \<lparr>totalTextTokenLength = 8, excerpts = [exGood, exFail]\<rparr>"
  "splitText exDocEnv exDocSplitter ''goodnext''
     = \<lparr>totalTextTokenLength = 8, excerpts = [exGood, exNext]\<rparr>"
  by code_simp+

theorem docLoop_survives_excerpt_failure_witness:
  "\<not> settingsDryrun exNoProgress \<and> progress exNoProgress = None
   \<and> \<not> settingsDryrun exThrowing
   \<and> hasCapacity (limiter (exWorld :: progressState world))
   \<and> documentCall exDocEnv exDocPrompt exDocSplitter ''failgood'' exNoProgress exWorld =
       Some (\<lparr>response = Some (JString ''good''), tokensSent = Num 4,
              tokensReceived = Num 4, cost = Num 12\<rparr>,
             \<lparr>limiter =
                \<lparr>requestLimiter = \<lparr>reservoir = Num 4, reservoirRefreshAmount = Num 10\<rparr>,
                 tokenLimiter = \<lparr>reservoir = Num 86, reservoirRefreshAmount = Num 100\<rparr>\<rparr>,
              chainCalls = 6, fixCalls = 0, attempts = 6, delays = [1000, 1000, 1000, 1000],
              caught = [Thrown ''down'', Thrown ''down'', Thrown ''down'', Thrown ''down'',
                        Thrown ''down''],
              consoleLog = [Thrown ''down''], progressCalls = []\<rparr>)
   \<and> documentCall exDocEnv exDocPrompt exDocSplitter ''goodfail'' exNoProgress exWorld =
       Some (\<lparr>response = Some (JString ''good''), tokensSent = Num 4,
              tokensReceived = Num 4, cost = Num 12\<rparr>,
             \<lparr>limiter =
                \<lparr>requestLimiter = \<lparr>reservoir = Num 4, reservoirRefreshAmount = Num 10\<rparr>,
                 tokenLimiter = \<lparr>reservoir = Num 86, reservoirRefreshAmount = Num 100\<rparr>\<rparr>,
              chainCalls = 6, fixCalls = 0, attempts = 6, delays = [1000, 1000, 1000, 1000],
              caught = [Thrown ''down'', Thrown ''down'', Thrown ''down'', Thrown ''down'',
                        Thrown ''down''],
              consoleLog = [Thrown ''down''], progressCalls = []\<rparr>)
   \<and> (case documentCall exDocEnv exDocPrompt exDocSplitter ''goodnext'' exThrowing exWorld of
         None \<Rightarrow> False
       | Some (res, w') \<Rightarrow>
           res = \<lparr>response = Some (JString ''next''), tokensSent = Num 8,
                  tokensReceived = Num 8, cost = Num 24\<rparr>
         \<and> consoleLog w' = [Thrown ''callback'', Thrown ''callback'']
         \<and> map progressCount (progressCalls w') = [1, 2])
   \<and> (\<forall>k pd. chainCall exDocEnvDown k pd = Inl (Thrown ''down''))
   \<and> (\<exists>w3 logged.
         documentCall exDocEnvDown exDocPrompt exDocSplitter ''failgood'' exNoProgress exWorld =
           Some (\<lparr>response = None, tokensSent = Num 0, tokensReceived = Num 0,
                  cost = Num 0\<rparr>, w3)
       \<and> consoleLog w3 = consoleLog (exWorld :: progressState world) @ logged
       \<and> length logged = 2)"
proof -
  let ?down = "Thrown ''down''"
  let ?cb = "Thrown ''callback''"
  let ?d = "\<lambda>e st. \<lparr>dryrun = False, responseTokenLength = docResponseTokenLength exDocPrompt,
                     vars = excerptArgs exDocEnv 8 e st\<rparr>"
  let ?add = "\<lambda>e st r.
      st\<lparr>docCost := jsAdd (docCost st) (orZero (Some (cost r))),
         docTokensSent := jsAdd (docTokensSent st) (orZero (Some (tokensSent r))),
         docTokensReceived := jsAdd (docTokensReceived st) (orZero (Some (tokensReceived r))),
         docResponse := (case response r of
                           None \<Rightarrow> docResponse st
                         | Some v \<Rightarrow> if truthy v then Some v else docResponse st),
         currentTokenCount := currentTokenCount st + excerptTokenLength e,
         count := Suc (count st)\<rparr>"
  let ?good = "?add exGood initialState (exResult ''good'')"
  let ?both = "?add exNext ?good (exResult ''next'')"
  let ?end = "\<lparr>limiter =
                \<lparr>requestLimiter = \<lparr>reservoir = Num 4, reservoirRefreshAmount = Num 10\<rparr>,
                 tokenLimiter = \<lparr>reservoir = Num 86, reservoirRefreshAmount = Num 100\<rparr>\<rparr>,
              chainCalls = 6, fixCalls = 0, attempts = 6, delays = [1000, 1000, 1000, 1000],
              caught = [?down, ?down, ?down, ?down, ?down],
              consoleLog = [?down], progressCalls = []\<rparr> :: progressState world"
  have h1: "\<not> settingsDryrun exNoProgress" and h2: "progress exNoProgress = None"
    by (simp_all add: exNoProgress_def)
  have h3: "\<not> settingsDryrun exThrowing" by (simp add: exThrowing_def)
  have h4: "hasCapacity (limiter (exWorld :: progressState world))"
    by (simp add: exWorld_def exLimiter_def hasCapacity_def)
  have g: "docResponse ?good = Some (JString ''good'')" "docTokensSent ?good = Num 4"
    "docTokensReceived ?good = Num 4" "docCost ?good = Num 12"
    by (simp_all add: exResult_def initialState_def orZero_def falsyNum_def)
  note t = docLoop_survives_excerpt_failure
             [where env = exDocEnv and dp = exDocPrompt and T = 8, unfolded Let_def]
  note threw = t [THEN conjunct1, THEN conjunct1, THEN mp, THEN conjunct1]
  note returned = t [THEN conjunct1, THEN conjunct2, THEN conjunct1, THEN mp]
  note callback = t [THEN conjunct1, THEN conjunct2, THEN conjunct2, THEN conjunct1, THEN mp]
  note ended = t [THEN conjunct2, THEN conjunct1]

  txt \<open>The first excerpt fails, the second is answered.\<close>
  let ?w1 = "exWorldDown\<lparr>consoleLog := consoleLog exWorldDown @ [?down]\<rparr>"
  have c1: "call exDocEnv (docModel exDocPrompt) (?d exFail initialState) 5 1000 exWorld
              = Some (Inl ?down, exWorldDown)"
    by code_simp
  have c2: "call exDocEnv (docModel exDocPrompt) (?d exGood initialState) 5 1000 ?w1
              = Some (Inr (Some (exResult ''good'')), ?end)"
    by code_simp
  have "docLoop exDocEnv exDocPrompt exNoProgress 8 [exFail, exGood] initialState exWorld
          = docLoop exDocEnv exDocPrompt exNoProgress 8 [exGood] initialState ?w1"
    using h1 c1 by (intro threw) simp
  also have "\<dots> = docLoop exDocEnv exDocPrompt exNoProgress 8 [] ?good ?end"
    using h1 h2 c2 by (intro returned) simp
  also have "\<dots> = Some (?good, ?end)"
    by (rule ended)
  finally have l1: "docLoop exDocEnv exDocPrompt exNoProgress 8 [exFail, exGood] initialState
                      exWorld = Some (?good, ?end)" .
  have r1: "documentCall exDocEnv exDocPrompt exDocSplitter ''failgood'' exNoProgress exWorld =
       Some (\<lparr>response = Some (JString ''good''), tokensSent = Num 4,
              tokensReceived = Num 4, cost = Num 12\<rparr>, ?end)"
    using docLoop_survives_excerpt_failure
            [where env = exDocEnv and dp = exDocPrompt and sp = exDocSplitter
               and ?text = "''failgood''" and settings = exNoProgress
               and ?w0.0 = "exWorld :: progressState world",
             THEN conjunct2, THEN conjunct2, THEN conjunct1]
    by (simp add: splitText_failgood l1 g del: docLoop.simps)

  txt \<open>The first excerpt is answered, the second fails: the response is still the first.\<close>
  let ?w2 = "\<lparr>limiter =
                \<lparr>requestLimiter = \<lparr>reservoir = Num 4, reservoirRefreshAmount = Num 10\<rparr>,
                 tokenLimiter = \<lparr>reservoir = Num 86, reservoirRefreshAmount = Num 100\<rparr>\<rparr>,
              chainCalls = 6, fixCalls = 0, attempts = 6, delays = [1000, 1000, 1000, 1000],
              caught = [?down, ?down, ?down, ?down, ?down],
              consoleLog = [], progressCalls = []\<rparr> :: progressState world"
  have c3: "call exDocEnv (docModel exDocPrompt) (?d exGood initialState) 5 1000 exWorld
              = Some (Inr (Some (exResult ''good'')), exWorldOnce)"
    by code_simp
  have c4: "call exDocEnv (docModel exDocPrompt) (?d exFail ?good) 5 1000 exWorldOnce
              = Some (Inl ?down, ?w2)"
    by code_simp
  have "docLoop exDocEnv exDocPrompt exNoProgress 8 [exGood, exFail] initialState exWorld
          = docLoop exDocEnv exDocPrompt exNoProgress 8 [exFail] ?good exWorldOnce"
    using h1 h2 c3 by (intro returned) simp
  also have "\<dots> = docLoop exDocEnv exDocPrompt exNoProgress 8 [] ?good
                     (?w2\<lparr>consoleLog := consoleLog ?w2 @ [?down]\<rparr>)"
    using h1 c4 by (intro threw) simp
  also have "\<dots> = Some (?good, ?w2\<lparr>consoleLog := consoleLog ?w2 @ [?down]\<rparr>)"
    by (rule ended)
  finally have l2: "docLoop exDocEnv exDocPrompt exNoProgress 8 [exGood, exFail] initialState
                      exWorld = Some (?good, ?w2\<lparr>consoleLog := consoleLog ?w2 @ [?down]\<rparr>)" .
  have r2: "documentCall exDocEnv exDocPrompt exDocSplitter ''goodfail'' exNoProgress exWorld =
       Some (\<lparr>response = Some (JString ''good''), tokensSent = Num 4,
              tokensReceived = Num 4, cost = Num 12\<rparr>, ?end)"
    using docLoop_survives_excerpt_failure
            [where env = exDocEnv and dp = exDocPrompt and sp = exDocSplitter
               and ?text = "''goodfail''" and settings = exNoProgress
               and ?w0.0 = "exWorld :: progressState world",
             THEN conjunct2, THEN conjunct2, THEN conjunct1]
    by (simp add: splitText_failgood l2 g del: docLoop.simps)

  txt \<open>Both excerpts are answered and the progress callback throws after each.\<close>
  let ?ps1 = "progressArgument (excerptArgs exDocEnv 8 exGood initialState) ?good"
  let ?ps2 = "progressArgument (excerptArgs exDocEnv 8 exNext ?good) ?both"
  let ?v1 = "exWorldOnce\<lparr>progressCalls := progressCalls exWorldOnce @ [?ps1],
                         consoleLog := consoleLog exWorldOnce @ [?cb]\<rparr>"
  let ?v2 = "?v1\<lparr>limiter :=
                \<lparr>requestLimiter = \<lparr>reservoir = Num 8, reservoirRefreshAmount = Num 10\<rparr>,
                 tokenLimiter = \<lparr>reservoir = Num 82, reservoirRefreshAmount = Num 100\<rparr>\<rparr>,
               chainCalls := 2, attempts := 2\<rparr>"
  let ?v3 = "?v2\<lparr>progressCalls := progressCalls ?v2 @ [?ps2],
                  consoleLog := consoleLog ?v2 @ [?cb]\<rparr>"
  have p: "progress exThrowing = Some (\<lambda>_. Inl ?cb)" by (simp add: exThrowing_def)
  have c5: "call exDocEnv (docModel exDocPrompt) (?d exNext ?good) 5 1000 ?v1
              = Some (Inr (Some (exResult ''next'')), ?v2)"
    by code_simp
  have "docLoop exDocEnv exDocPrompt exThrowing 8 [exGood, exNext] initialState exWorld
          = docLoop exDocEnv exDocPrompt exThrowing 8 [exNext] ?good ?v1"
    using h3 p c3 by (intro callback) simp
  also have "\<dots> = docLoop exDocEnv exDocPrompt exThrowing 8 [] ?both ?v3"
    using h3 p c5 by (intro callback) simp
  also have "\<dots> = Some (?both, ?v3)"
    by (rule ended)
  finally have l3: "docLoop exDocEnv exDocPrompt exThrowing 8 [exGood, exNext] initialState
                      exWorld = Some (?both, ?v3)" .
  have dc: "documentCall exDocEnv exDocPrompt exDocSplitter ''goodnext'' exThrowing exWorld
              = Some (\<lparr>response = docResponse ?both, tokensSent = docTokensSent ?both,
                       tokensReceived = docTokensReceived ?both, cost = docCost ?both\<rparr>, ?v3)"
    using docLoop_survives_excerpt_failure
            [where env = exDocEnv and dp = exDocPrompt and sp = exDocSplitter
               and ?text = "''goodnext''" and settings = exThrowing
               and ?w0.0 = "exWorld :: progressState world",
             THEN conjunct2, THEN conjunct2, THEN conjunct1]
    by (simp add: splitText_failgood l3 del: docLoop.simps)
  have r3: "case documentCall exDocEnv exDocPrompt exDocSplitter ''goodnext'' exThrowing
                   exWorld of
         None \<Rightarrow> False
       | Some (res, w') \<Rightarrow>
           res = \<lparr>response = Some (JString ''next''), tokensSent = Num 8,
                  tokensReceived = Num 8, cost = Num 24\<rparr>
         \<and> consoleLog w' = [?cb, ?cb]
         \<and> map progressCount (progressCalls w') = [1, 2]"
    unfolding dc
    by (simp add: exWorldOnce_def progressArgument_def exResult_def
                  initialState_def orZero_def falsyNum_def)

  txt \<open>The chain is down on every excerpt.\<close>
  have h5: "\<forall>k pd. chainCall exDocEnvDown k pd = Inl ?down"
    by (simp add: exDocEnvDown_def)
  have n: "length (excerpts (splitText exDocEnvDown exDocSplitter ''failgood'')) = 2"
    by code_simp
  have r4: "\<exists>w3 logged.
         documentCall exDocEnvDown exDocPrompt exDocSplitter ''failgood'' exNoProgress exWorld =
           Some (\<lparr>response = None, tokensSent = Num 0, tokensReceived = Num 0,
                  cost = Num 0\<rparr>, w3)
       \<and> consoleLog w3 = consoleLog (exWorld :: progressState world) @ logged
       \<and> length logged = 2"
    using docLoop_survives_excerpt_failure
            [where env = exDocEnvDown and dp = exDocPrompt and sp = exDocSplitter
               and ?text = "''failgood''" and settings = exNoProgress
               and ?w0.0 = "exWorld :: progressState world" and err0 = ?down,
             THEN conjunct2, THEN conjunct2, THEN conjunct2, THEN conjunct2]
          h5 h1 h4
    unfolding n by blast
  show ?thesis
    using h1 h2 h3 h4 r1 r2 r3 h5 r4 by simp
qed

text \<open>
  Claim C6 as stated fails on a document whose first excerpt is answered five times by
  a completion that neither parser accepts: each of the five attempts sent a prompt of
  four tokens and received four, the first alone counting 4, 4 and a cost of 12, and
  the value returned holds the tokens and cost of the second excerpt only.
\<close>

theorem documentCall_failed_excerpt_counterexample:
  "documentCall exDocEnvBad exDocPrompt exDocSplitter ''failgood'' exNoProgress exWorld =
     Some (\<lparr>response = Some (JString ''good''), tokensSent = Num 4,
            tokensReceived = Num 4, cost = Num 12\<rparr>,
           \<lparr>limiter =
              \<lparr>requestLimiter = \<lparr>reservoir = Num 9, reservoirRefreshAmount = Num 10\<rparr>,
               tokenLimiter = \<lparr>reservoir = Num 91, reservoirRefreshAmount = Num 100\<rparr>\<rparr>,
            chainCalls = 6, fixCalls = 5, attempts = 6, delays = [1000, 1000, 1000, 1000],
            caught = [Thrown ''fix'', Thrown ''fix'', Thrown ''fix'', Thrown ''fix'',
                      Thrown ''fix''],
            consoleLog = [Thrown ''fix''], progressCalls = []\<rparr>)
   \<and> process (callTask exDocEnvBad exModel
                \<lparr>inputData = \<lparr>dryrun = False, responseTokenLength = Some 10,
                               vars = excerptArgs exDocEnvBad 8 exFail initialState\<rparr>,
                 remainingTokenCount = Some (Num 96), tokenCount = Some 4\<rparr>
                (Num 0, Num 0, Num 0))
       ((exWorld :: progressState world)\<lparr>attempts := 1\<rparr>)
     = Some (Inl (Thrown ''fix'', (Num 4, Num 4, Num 12)),
             \<lparr>limiter =
                \<lparr>requestLimiter = \<lparr>reservoir = Num 8, reservoirRefreshAmount = Num 10\<rparr>,
                 tokenLimiter = \<lparr>reservoir = Num 98, reservoirRefreshAmount = Num 100\<rparr>\<rparr>,
              chainCalls = 1, fixCalls = 1, attempts = 1, delays = [],
              caught = [], consoleLog = [], progressCalls = []\<rparr>)"
  by code_simp

section \<open>The progress callback\<close>










end
